theory Spec2Isabelle
  imports Complex_Main "HOL-Library.Monad_Syntax"
begin

section \<open>Python values\<close>

text \<open>
  The values a JSON decoder hands to the program: \<open>None\<close>, booleans, integers, floats,
  strings, lists and dictionaries with string keys. Floats are modelled by real numbers;
  a string is a list of characters, one per code point.
\<close>

datatype json =
    JNull
  | JBool bool
  | JInt int
  | JFloat real
  | JStr string
  | JList "json list"
  | JObj "(string \<times> json) list"

type_synonym pydict = "string \<rightharpoonup> json"

text \<open>Python's truth value of an object (\<open>bool(v)\<close>, \<open>if v\<close>, \<open>not v\<close>).\<close>

fun truthy :: "json \<Rightarrow> bool" where
  "truthy JNull = False"
| "truthy (JBool b) = b"
| "truthy (JInt i) = (i \<noteq> 0)"
| "truthy (JFloat r) = (r \<noteq> 0)"
| "truthy (JStr s) = (s \<noteq> [])"
| "truthy (JList xs) = (xs \<noteq> [])"
| "truthy (JObj kvs) = (kvs \<noteq> [])"

fun is_list :: "json \<Rightarrow> bool" where
  "is_list (JList xs) = True"
| "is_list v = False"

fun is_str :: "json \<Rightarrow> bool" where
  "is_str (JStr s) = True"
| "is_str v = False"

text \<open>
  The exceptions of the modelled code. \<open>ValueError\<close> of the classifier carries the list of
  missing fields, \<open>MetadataValidationError\<close> the list of validation errors.
\<close>

datatype verror =
    SchemaError string
  | MissingRequiredField string
  | InvalidDocumentType json
  | InvalidDepartment json
  | InvalidAuthorityLevel json
  | TopicsNotArray
  | TooFewTopics
  | TooManyTopics
  | AudienceNotArray
  | InvalidAudience json
  | InvalidVersionFormat json
  | InvalidDateFormat string json
  | SummaryTooShort nat
  | SummaryTooLong nat
  | ConfidenceOutOfRange json
  | ExpirationNotAfterEffective

datatype exn =
    ValueError "string list"
  | TypeError
  | KeyError
  | IndexError
  | FileNotFoundError
  | MetadataValidationError "verror list"
  | OtherError string

text \<open>
  Slicing \<open>xs[a:b]\<close> of a list by two integers: a negative index counts from the end, and
  both are clipped to the list.
\<close>

definition slice_index :: "nat \<Rightarrow> int \<Rightarrow> nat" where
  "slice_index n i = (if i < 0 then nat (max (i + int n) 0) else min (nat i) n)"

definition py_slice :: "'a list \<Rightarrow> int \<Rightarrow> int \<Rightarrow> 'a list" where
  "py_slice xs a b =
     (let lo = slice_index (length xs) a; hi = slice_index (length xs) b
      in take (hi - lo) (drop lo xs))"

section \<open>Settings\<close>

text \<open>
  The fields of \<open>Settings\<close> the chunker reads, and \<open>validate_settings\<close>, which
  \<open>get_settings\<close> runs once when the settings object is created. Whether the prompts
  directory exists is a fact of the file system and is passed in.
\<close>

record settings =
  chunk_size :: int
  chunk_overlap :: int

definition validate_settings :: "settings \<Rightarrow> bool \<Rightarrow> exn + unit" where
  "validate_settings st prompts_dir_exists =
     (if chunk_overlap st \<ge> chunk_size st then Inl (ValueError [''chunk_overlap'', ''chunk_size''])
      else if \<not> prompts_dir_exists then Inl FileNotFoundError
      else Inr ())"

section \<open>Chunker\<close>

record document_chunk =
  chunk_text :: string
  chunk_number :: int
  start_char :: int
  end_char :: int
  metadata :: pydict
  chunk_metadata :: "pydict option"

text \<open>
  The tokenizer is a library outside the repository; its \<open>encode\<close> and \<open>decode\<close> are
  parameters. \<open>make_chunk\<close> is the body of the loop of \<open>chunk_document\<close> up to the append.
\<close>

type_synonym token = nat

definition make_chunk ::
  "(token list \<Rightarrow> string) \<Rightarrow> token list \<Rightarrow> int \<Rightarrow> pydict option \<Rightarrow> int \<Rightarrow> int \<Rightarrow> document_chunk" where
  "make_chunk decode tokens csize document_metadata start_idx chunk_num =
     (let end_idx = start_idx + csize;
          chunk_tokens = py_slice tokens start_idx end_idx;
          txt = decode chunk_tokens;
          start_c = int (length (decode (py_slice tokens 0 start_idx)));
          end_c = start_c + int (length txt)
      in \<lparr> chunk_text = txt, chunk_number = chunk_num, start_char = start_c, end_char = end_c,
           metadata = (case document_metadata of None \<Rightarrow> Map.empty | Some m \<Rightarrow> m),
           chunk_metadata = None \<rparr>)"

text \<open>
  The \<open>while\<close> loop. It has no bound of its own, so the model is a partial function:
  \<open>None\<close> is a run that never leaves the loop.
\<close>

partial_function (option) chunk_loop ::
  "(token list \<Rightarrow> string) \<Rightarrow> token list \<Rightarrow> int \<Rightarrow> int \<Rightarrow> pydict option \<Rightarrow>
   int \<Rightarrow> int \<Rightarrow> document_chunk list \<Rightarrow> document_chunk list option" where
  "chunk_loop decode tokens csize coverlap document_metadata start_idx chunk_num chunks =
     (if start_idx < int (length tokens)
      then chunk_loop decode tokens csize coverlap document_metadata
             (start_idx + (csize - coverlap)) (chunk_num + 1)
             (chunks @ [make_chunk decode tokens csize document_metadata start_idx chunk_num])
      else Some chunks)"

text \<open>\<open>x or default\<close> on an optional integer: \<open>None\<close> and \<open>0\<close> both take the default.\<close>

definition or_default :: "int option \<Rightarrow> int \<Rightarrow> int" where
  "or_default x d = (case x of None \<Rightarrow> d | Some v \<Rightarrow> if v = 0 then d else v)"

definition chunk_document ::
  "settings \<Rightarrow> (string \<Rightarrow> token list) \<Rightarrow> (token list \<Rightarrow> string) \<Rightarrow>
   string \<Rightarrow> int option \<Rightarrow> int option \<Rightarrow> pydict option \<Rightarrow> document_chunk list option" where
  "chunk_document st encode decode txt chunk_size_arg chunk_overlap_arg document_metadata =
     (let csize = or_default chunk_size_arg (chunk_size st);
          coverlap = or_default chunk_overlap_arg (chunk_overlap st);
          tokens = encode txt
      in chunk_loop decode tokens csize coverlap document_metadata 0 0 [])"

text \<open>
  The number of passes of the loop from \<open>start_idx = start\<close> when each pass advances by
  \<open>step > 0\<close>, and the token positions \<open>[span_lo, span_hi)\<close> that the slice of pass
  \<open>i\<close> takes; \<open>shared_tokens\<close> counts the positions two consecutive passes have in common.
\<close>

definition chunk_count :: "nat \<Rightarrow> int \<Rightarrow> int \<Rightarrow> nat" where
  "chunk_count n start step = (if start < int n then nat ((int n - start - 1) div step + 1) else 0)"

definition span_lo :: "nat \<Rightarrow> int \<Rightarrow> int \<Rightarrow> nat \<Rightarrow> nat" where
  "span_lo n csize coverlap i = slice_index n (int i * (csize - coverlap))"

definition span_hi :: "nat \<Rightarrow> int \<Rightarrow> int \<Rightarrow> nat \<Rightarrow> nat" where
  "span_hi n csize coverlap i = slice_index n (int i * (csize - coverlap) + csize)"

definition shared_tokens :: "nat \<Rightarrow> int \<Rightarrow> int \<Rightarrow> nat \<Rightarrow> nat" where
  "shared_tokens n csize coverlap i =
     card ({span_lo n csize coverlap i ..< span_hi n csize coverlap i} \<inter>
           {span_lo n csize coverlap (Suc i) ..< span_hi n csize coverlap (Suc i)})"

text \<open>
  The defaults of the two chunking fields of \<open>Settings\<close>, a configuration of chunks of
  three tokens without overlap, and a tokenizer with one token per character, used to run
  the chunker on concrete texts.
\<close>

definition default_settings :: settings where
  "default_settings = \<lparr> chunk_size = 500, chunk_overlap = 50 \<rparr>"

definition settings_no_overlap :: settings where
  "settings_no_overlap = \<lparr> chunk_size = 3, chunk_overlap = 0 \<rparr>"

definition char_encode :: "string \<Rightarrow> token list" where
  "char_encode s = map of_char s"

definition char_decode :: "token list \<Rightarrow> string" where
  "char_decode ts = map char_of ts"

section \<open>Business rules: controlled vocabularies\<close>

definition DOCUMENT_TYPES :: "string list" where
  "DOCUMENT_TYPES = [''HR Policy'', ''Technical Manual'', ''Financial Report'', ''Legal Document'',
     ''Memo'', ''Procedure'', ''Guideline'', ''Standard Operating Procedure'', ''Other'']"

definition DEPARTMENTS :: "string list" where
  "DEPARTMENTS = [''HR'', ''Engineering'', ''Finance'', ''Legal'', ''Operations'', ''Marketing'',
     ''Sales'', ''Executive'', ''IT'', ''Cross-Functional'']"

definition AUTHORITY_LEVELS :: "string list" where
  "AUTHORITY_LEVELS = [''official'', ''draft'', ''archived'', ''deprecated'', ''reference'']"

definition INTENDED_AUDIENCES :: "string list" where
  "INTENDED_AUDIENCES = [''all_employees'', ''managers'', ''executives'', ''engineers'', ''hr_staff'',
     ''finance_team'', ''legal_team'', ''contractors'', ''new_hires'', ''specific_department'']"

definition COMPLEXITY_LEVELS :: "string list" where
  "COMPLEXITY_LEVELS = [''simple'', ''structured'', ''complex'']"

text \<open>
  \<open>v in xs\<close> for a list \<open>xs\<close> of strings: membership by equality, which no value but a
  string can satisfy.
\<close>

fun in_strings :: "json \<Rightarrow> string list \<Rightarrow> bool" where
  "in_strings (JStr s) xs = (s \<in> set xs)"
| "in_strings v xs = False"

text \<open>
  The number a comparison with a float sees in a value: integers, floats and booleans
  compare; any other value makes the comparison raise \<open>TypeError\<close>.
\<close>

fun num_of :: "json \<Rightarrow> real option" where
  "num_of (JInt i) = Some (of_int i)"
| "num_of (JFloat r) = Some r"
| "num_of (JBool b) = Some (if b then 1 else 0)"
| "num_of v = None"

section \<open>Classifier\<close>

record classification_result =
  complexity :: string
  document_type :: string
  requires_deep_analysis :: json
  confidence :: json
  reasoning :: json
  raw_response :: pydict

definition required_fields :: "string list" where
  "required_fields = [''complexity'', ''document_type'', ''requires_deep_analysis'', ''confidence'']"

text \<open>
  \<open>_parse_classification\<close>. The fields are read only once all four are present. A
  complexity or document type outside its vocabulary is replaced by the default; inside it,
  the value is that string. The range test \<open>0.0 <= confidence <= 1.0\<close> raises on a value
  that is not a number; outside the range the value becomes
  \<open>max(0.0, min(1.0, confidence))\<close>.
\<close>

definition parse_complexity :: "json \<Rightarrow> string" where
  "parse_complexity v =
     (case v of JStr s \<Rightarrow> if in_strings v COMPLEXITY_LEVELS then s else ''structured''
              | _ \<Rightarrow> ''structured'')"

definition parse_document_type :: "json \<Rightarrow> string" where
  "parse_document_type v =
     (case v of JStr s \<Rightarrow> if in_strings v DOCUMENT_TYPES then s else ''Other''
              | _ \<Rightarrow> ''Other'')"

definition parse_confidence :: "json \<Rightarrow> exn + json" where
  "parse_confidence v =
     (case num_of v of
        None \<Rightarrow> Inl TypeError
      | Some x \<Rightarrow> if \<not> (0 \<le> x \<and> x \<le> 1) then Inr (JFloat (max 0 (min 1 x))) else Inr v)"

definition parse_classification :: "pydict \<Rightarrow> exn + classification_result" where
  "parse_classification response =
     (let missing = filter (\<lambda>f. response f = None) required_fields in
      if missing \<noteq> [] then Inl (ValueError missing)
      else
        case (response ''complexity'', response ''document_type'',
              response ''requires_deep_analysis'', response ''confidence'') of
          (Some c, Some d, Some r, Some conf) \<Rightarrow>
            (case parse_confidence conf of
               Inl e \<Rightarrow> Inl e
             | Inr conf' \<Rightarrow>
                 Inr \<lparr> complexity = parse_complexity c,
                       document_type = parse_document_type d,
                       requires_deep_analysis = r,
                       confidence = conf',
                       reasoning = (case response ''reasoning'' of
                                      None \<Rightarrow> JStr ''No reasoning provided'' | Some t \<Rightarrow> t),
                       raw_response = response \<rparr>)
        | _ \<Rightarrow> Inl KeyError)"

text \<open>\<open>get_extraction_strategy\<close> and \<open>should_extract_chunk_metadata\<close> of the classifier.\<close>

definition get_extraction_strategy :: "classification_result \<Rightarrow> string" where
  "get_extraction_strategy c =
     (if complexity c = ''simple'' then ''fast''
      else if complexity c = ''structured'' then ''template''
      else ''deep'')"

definition classifier_should_extract_chunk_metadata :: "classification_result \<Rightarrow> bool" where
  "classifier_should_extract_chunk_metadata c =
     (truthy (requires_deep_analysis c) \<or> complexity c = ''complex'')"

text \<open>Two model responses: a confidence of 1.5 with an unknown complexity, and a confidence given in words.\<close>

definition response_out_of_range :: pydict where
  "response_out_of_range =
     [''complexity'' \<mapsto> JStr ''medium'', ''document_type'' \<mapsto> JStr ''Memo'',
      ''requires_deep_analysis'' \<mapsto> JBool False, ''confidence'' \<mapsto> JFloat (3 / 2)]"

definition response_text_confidence :: pydict where
  "response_text_confidence =
     [''complexity'' \<mapsto> JStr ''simple'', ''document_type'' \<mapsto> JStr ''Memo'',
      ''requires_deep_analysis'' \<mapsto> JBool False, ''confidence'' \<mapsto> JStr ''high'']"

section \<open>Document metadata extractor\<close>

text \<open>
  \<open>_post_process_metadata\<close>, in the order of its statements: the document type of the
  classification is written over a missing or different one; complexity and
  \<open>requires_deep_analysis\<close> are copied in; \<open>topics\<close> and \<open>intended_audience\<close> are wrapped
  in a list when they are not one; every entry whose value is \<open>None\<close>, the empty string or
  the empty list is dropped; the three defaults are added where the key is absent.
\<close>

definition ensure_list :: "string \<Rightarrow> pydict \<Rightarrow> pydict" where
  "ensure_list k m =
     (case m k of
        Some v \<Rightarrow> if \<not> is_list v then m(k \<mapsto> JList [v]) else m
      | None \<Rightarrow> m)"

definition drop_null_empty :: "pydict \<Rightarrow> pydict" where
  "drop_null_empty m =
     (\<lambda>k. case m k of
            Some v \<Rightarrow> if v \<noteq> JNull \<and> v \<noteq> JStr [] \<and> v \<noteq> JList [] then Some v else None
          | None \<Rightarrow> None)"

definition set_default :: "string \<Rightarrow> json \<Rightarrow> pydict \<Rightarrow> pydict" where
  "set_default k d m = (if m k = None then m(k \<mapsto> d) else m)"

definition post_process_metadata :: "pydict \<Rightarrow> classification_result \<Rightarrow> pydict" where
  "post_process_metadata md cls =
     (let m1 = (if md ''document_type'' = None
                then md(''document_type'' \<mapsto> JStr (document_type cls))
                else if md ''document_type'' \<noteq> Some (JStr (document_type cls))
                then md(''document_type'' \<mapsto> JStr (document_type cls))
                else md);
          m2 = m1(''complexity'' \<mapsto> JStr (complexity cls),
                  ''requires_deep_analysis'' \<mapsto> requires_deep_analysis cls);
          m3 = ensure_list ''topics'' m2;
          m4 = ensure_list ''intended_audience'' m3;
          m5 = drop_null_empty m4
      in set_default ''geographic_scope'' (JList [JStr ''global''])
           (set_default ''compliance_related'' (JBool False)
             (set_default ''requires_acknowledgment'' (JBool False) m5)))"

text \<open>A model answer with a scalar topic, a null audience and an empty summary, and a classification.\<close>

definition sample_raw_metadata :: pydict where
  "sample_raw_metadata =
     [''document_type'' \<mapsto> JStr ''Memo'', ''topics'' \<mapsto> JStr ''remote_work'',
      ''intended_audience'' \<mapsto> JNull, ''document_summary'' \<mapsto> JStr [],
      ''compliance_related'' \<mapsto> JBool True]"

definition sample_classification :: classification_result where
  "sample_classification =
     \<lparr> complexity = ''simple'', document_type = ''HR Policy'',
       requires_deep_analysis = JBool False, confidence = JFloat (9 / 10),
       reasoning = JStr ''policy text'', raw_response = Map.empty \<rparr>"

section \<open>Metadata validator: fixing minor issues\<close>

text \<open>
  \<open>str.strip()\<close> and \<open>str.lower()\<close> on the characters a \<open>char\<close> can hold (code points
  below 256): the white space of Python is tab to carriage return, the four separators
  28 to 31, space, next-line (133) and no-break space (160); the capital letters are
  \<open>A\<close> to \<open>Z\<close> and 192 to 222 without the multiplication sign (215).
\<close>

definition is_space :: "char \<Rightarrow> bool" where
  "is_space c =
     (let n = (of_char c :: nat)
      in (9 \<le> n \<and> n \<le> 13) \<or> (28 \<le> n \<and> n \<le> 32) \<or> n = 133 \<or> n = 160)"

definition strip :: "string \<Rightarrow> string" where
  "strip s = rev (dropWhile is_space (rev (dropWhile is_space s)))"

definition is_upper :: "char \<Rightarrow> bool" where
  "is_upper c =
     (let n = (of_char c :: nat)
      in (65 \<le> n \<and> n \<le> 90) \<or> (192 \<le> n \<and> n \<le> 214) \<or> (216 \<le> n \<and> n \<le> 222))"

definition char_lower :: "char \<Rightarrow> char" where
  "char_lower c = (if is_upper c then char_of ((of_char c :: nat) + 32) else c)"

definition lower :: "string \<Rightarrow> string" where
  "lower s = map char_lower s"

text \<open>The four passes of \<open>_fix_minor_issues\<close>, each for one field of its list.\<close>

definition fix_string_field :: "string \<Rightarrow> pydict \<Rightarrow> pydict" where
  "fix_string_field field fixed =
     (case fixed field of Some (JStr s) \<Rightarrow> fixed(field \<mapsto> JStr (strip s)) | _ \<Rightarrow> fixed)"

definition fix_enum_field :: "string \<Rightarrow> pydict \<Rightarrow> pydict" where
  "fix_enum_field field fixed =
     (case fixed field of Some (JStr s) \<Rightarrow> fixed(field \<mapsto> JStr (lower s)) | _ \<Rightarrow> fixed)"

fun keep_item :: "json \<Rightarrow> bool" where
  "keep_item (JStr s) = (truthy (JStr s) \<and> strip s \<noteq> [])"
| "keep_item v = truthy v"

fun strip_item :: "json \<Rightarrow> json" where
  "strip_item (JStr s) = JStr (strip s)"
| "strip_item v = v"

definition clean_items :: "json list \<Rightarrow> json list" where
  "clean_items xs = map strip_item (filter keep_item xs)"

definition fix_array_field :: "string \<Rightarrow> pydict \<Rightarrow> pydict" where
  "fix_array_field field fixed =
     (case fixed field of
        None \<Rightarrow> fixed
      | Some v \<Rightarrow>
          let xs = (case v of JList ys \<Rightarrow> ys | _ \<Rightarrow> [v])
          in fixed(field \<mapsto> JList (clean_items xs)))"

definition drop_empty_field :: "string \<Rightarrow> pydict \<Rightarrow> pydict" where
  "drop_empty_field field fixed =
     (case fixed field of
        Some v \<Rightarrow> if \<not> truthy v then fixed(field := None) else fixed
      | None \<Rightarrow> fixed)"

definition string_fields :: "string list" where
  "string_fields = [''document_type'', ''department'', ''authority_level'', ''version'',
     ''document_summary'']"

definition enum_fields :: "string list" where
  "enum_fields = [''authority_level'']"

definition array_fields :: "string list" where
  "array_fields = [''topics'', ''intended_audience'', ''key_entities'']"

definition optional_empty_fields :: "string list" where
  "optional_empty_fields = [''key_entities'', ''geographic_scope'', ''expiration_date'']"

definition fix_minor_issues :: "pydict \<Rightarrow> pydict" where
  "fix_minor_issues md =
     fold drop_empty_field optional_empty_fields
       (fold fix_array_field array_fields
         (fold fix_enum_field enum_fields
           (fold fix_string_field string_fields md)))"

text \<open>
  What each pass does to the value stored under its field, and what the four passes
  together do to the value stored under one key: a pure function of the key and of that
  value.
\<close>

definition strip_value :: "json option \<Rightarrow> json option" where
  "strip_value v = (case v of Some (JStr s) \<Rightarrow> Some (JStr (strip s)) | _ \<Rightarrow> v)"

definition lower_value :: "json option \<Rightarrow> json option" where
  "lower_value v = (case v of Some (JStr s) \<Rightarrow> Some (JStr (lower s)) | _ \<Rightarrow> v)"

definition array_value :: "json option \<Rightarrow> json option" where
  "array_value v =
     (case v of None \<Rightarrow> None
      | Some w \<Rightarrow> Some (JList (clean_items (case w of JList ys \<Rightarrow> ys | _ \<Rightarrow> [w]))))"

definition drop_falsy_value :: "json option \<Rightarrow> json option" where
  "drop_falsy_value v = (case v of Some w \<Rightarrow> if \<not> truthy w then None else v | None \<Rightarrow> None)"

definition fix_value :: "string \<Rightarrow> json option \<Rightarrow> json option" where
  "fix_value k v =
     (let v1 = (if k \<in> set string_fields then strip_value v else v);
          v2 = (if k \<in> set enum_fields then lower_value v1 else v1);
          v3 = (if k \<in> set array_fields then array_value v2 else v2)
      in if k \<in> set optional_empty_fields then drop_falsy_value v3 else v3)"

text \<open>A metadata mapping with untidy values.\<close>

definition untidy_metadata :: pydict where
  "untidy_metadata =
     [''department'' \<mapsto> JStr ''  HR '', ''authority_level'' \<mapsto> JStr '' Official'',
      ''topics'' \<mapsto> JStr '' annual_leave '', ''key_entities'' \<mapsto> JList [JStr '' '', JNull],
      ''expiration_date'' \<mapsto> JStr []]"

section \<open>Metadata validator: business rules and validation\<close>

text \<open>
  \<open>re.match\<close> with the two patterns of \<open>ValidationRules\<close>, written out:
  \<open>^\<close>\<open>\d+\.\d+(\.\d+)?$\<close> for versions and \<open>^\<close>\<open>\d{4}-\d{2}-\d{2}$\<close> for dates. \<open>$\<close>
  matches at the end of the string and before a final newline.
\<close>

definition is_digit :: "char \<Rightarrow> bool" where
  "is_digit c = (let n = (of_char c :: nat) in 48 \<le> n \<and> n \<le> 57)"

definition at_end :: "string \<Rightarrow> bool" where
  "at_end r = (r = [] \<or> r = [CHR 0x0A])"

definition dot_digits :: "string \<Rightarrow> string option" where
  "dot_digits r =
     (case r of
        [] \<Rightarrow> None
      | c # t \<Rightarrow> if c = CHR ''.'' \<and> takeWhile is_digit t \<noteq> [] then Some (dropWhile is_digit t) else None)"

definition version_match :: "string \<Rightarrow> bool" where
  "version_match s =
     (if takeWhile is_digit s = [] then False
      else case dot_digits (dropWhile is_digit s) of
             None \<Rightarrow> False
           | Some r2 \<Rightarrow>
               (case dot_digits r2 of
                  Some r3 \<Rightarrow> if at_end r3 then True else at_end r2
                | None \<Rightarrow> at_end r2))"

definition date_match :: "string \<Rightarrow> bool" where
  "date_match s =
     (length (take 10 s) = 10 \<and>
      list_all is_digit (take 4 s) \<and> take 1 (drop 4 s) = ''-'' \<and>
      list_all is_digit (take 2 (drop 5 s)) \<and> take 1 (drop 7 s) = ''-'' \<and>
      list_all is_digit (take 2 (drop 8 s)) \<and> at_end (drop 10 s))"

text \<open>\<open>len(v)\<close>, and \<open>a <= b\<close> on two strings (by code points) or two numbers.\<close>

fun py_len :: "json \<Rightarrow> exn + nat" where
  "py_len (JStr s) = Inr (length s)"
| "py_len (JList xs) = Inr (length xs)"
| "py_len (JObj kvs) = Inr (length kvs)"
| "py_len v = Inl TypeError"

fun str_le :: "string \<Rightarrow> string \<Rightarrow> bool" where
  "str_le [] ys = True"
| "str_le (x # xs) [] = False"
| "str_le (x # xs) (y # ys) =
     (if (of_char x :: nat) < of_char y then True
      else if (of_char y :: nat) < of_char x then False
      else str_le xs ys)"

definition py_le :: "json \<Rightarrow> json \<Rightarrow> exn + bool" where
  "py_le a b =
     (case (a, b) of
        (JStr s, JStr t) \<Rightarrow> Inr (str_le s t)
      | _ \<Rightarrow> (case (num_of a, num_of b) of
                 (Some x, Some y) \<Rightarrow> Inr (x \<le> y)
               | _ \<Rightarrow> Inl TypeError))"

text \<open>Sequencing of steps that may raise: the first exception ends the computation.\<close>

definition bind_exn :: "exn + 'a \<Rightarrow> ('a \<Rightarrow> exn + 'b) \<Rightarrow> exn + 'b" where
  "bind_exn r f = (case r of Inl e \<Rightarrow> Inl e | Inr v \<Rightarrow> f v)"

text \<open>\<open>validate_metadata_completeness\<close> of the business rules.\<close>

definition required_metadata_fields :: "string list" where
  "required_metadata_fields =
     [''document_type'', ''department'', ''authority_level'', ''topics'', ''intended_audience'']"

definition vocabulary_errors :: "pydict \<Rightarrow> string \<Rightarrow> string list \<Rightarrow> (json \<Rightarrow> verror) \<Rightarrow> verror list" where
  "vocabulary_errors md field allowed err =
     (case md field of
        None \<Rightarrow> []
      | Some v \<Rightarrow> if \<not> in_strings v allowed then [err v] else [])"

definition topics_errors :: "pydict \<Rightarrow> verror list" where
  "topics_errors md =
     (case md ''topics'' of
        None \<Rightarrow> []
      | Some (JList xs) \<Rightarrow>
          if length xs < 1 then [TooFewTopics]
          else if length xs > 10 then [TooManyTopics]
          else []
      | Some _ \<Rightarrow> [TopicsNotArray])"

definition audience_errors :: "pydict \<Rightarrow> verror list" where
  "audience_errors md =
     (case md ''intended_audience'' of
        None \<Rightarrow> []
      | Some (JList xs) \<Rightarrow>
          map InvalidAudience (filter (\<lambda>a. \<not> in_strings a INTENDED_AUDIENCES) xs)
      | Some _ \<Rightarrow> [AudienceNotArray])"

definition validate_metadata_completeness :: "pydict \<Rightarrow> verror list" where
  "validate_metadata_completeness md =
     map MissingRequiredField (filter (\<lambda>f. md f = None) required_metadata_fields)
     @ vocabulary_errors md ''document_type'' DOCUMENT_TYPES InvalidDocumentType
     @ vocabulary_errors md ''department'' DEPARTMENTS InvalidDepartment
     @ vocabulary_errors md ''authority_level'' AUTHORITY_LEVELS InvalidAuthorityLevel
     @ topics_errors md
     @ audience_errors md"

text \<open>
  The further checks of \<open>_validate_business_rules\<close>, in the order of the source. A check
  applied to a value of the wrong type raises \<open>TypeError\<close>.
\<close>

definition version_errors :: "pydict \<Rightarrow> exn + verror list" where
  "version_errors md =
     (case md ''version'' of
        None \<Rightarrow> Inr []
      | Some (JStr s) \<Rightarrow> Inr (if \<not> version_match s then [InvalidVersionFormat (JStr s)] else [])
      | Some _ \<Rightarrow> Inl TypeError)"

definition date_errors :: "string \<Rightarrow> pydict \<Rightarrow> exn + verror list" where
  "date_errors field md =
     (case md field of
        None \<Rightarrow> Inr []
      | Some v \<Rightarrow>
          if truthy v
          then (case v of
                  JStr s \<Rightarrow> Inr (if \<not> date_match s then [InvalidDateFormat field v] else [])
                | _ \<Rightarrow> Inl TypeError)
          else Inr [])"

definition summary_errors :: "pydict \<Rightarrow> exn + verror list" where
  "summary_errors md =
     (case md ''document_summary'' of
        None \<Rightarrow> Inr []
      | Some v \<Rightarrow>
          bind_exn (py_len v) (\<lambda>n.
            Inr ((if n < 50 then [SummaryTooShort n] else [])
                 @ (if n > 500 then [SummaryTooLong n] else []))))"

definition confidence_errors :: "pydict \<Rightarrow> exn + verror list" where
  "confidence_errors md =
     (case md ''classification_confidence'' of
        None \<Rightarrow> Inr []
      | Some v \<Rightarrow>
          (case num_of v of
             None \<Rightarrow> Inl TypeError
           | Some x \<Rightarrow> Inr (if \<not> (0 \<le> x \<and> x \<le> 1) then [ConfidenceOutOfRange v] else [])))"

definition date_order_errors :: "pydict \<Rightarrow> exn + verror list" where
  "date_order_errors md =
     (case (md ''effective_date'', md ''expiration_date'') of
        (Some eff, Some ex) \<Rightarrow>
          if truthy eff \<and> truthy ex
          then bind_exn (py_le ex eff) (\<lambda>b. Inr (if b then [ExpirationNotAfterEffective] else []))
          else Inr []
      | _ \<Rightarrow> Inr [])"

definition validate_business_rules :: "pydict \<Rightarrow> exn + verror list" where
  "validate_business_rules md =
     bind_exn (version_errors md) (\<lambda>v.
     bind_exn (date_errors ''effective_date'' md) (\<lambda>d1.
     bind_exn (date_errors ''expiration_date'' md) (\<lambda>d2.
     bind_exn (summary_errors md) (\<lambda>s.
     bind_exn (confidence_errors md) (\<lambda>c.
     bind_exn (date_order_errors md) (\<lambda>d.
       Inr (validate_metadata_completeness md @ v @ d1 @ d2 @ s @ c @ d)))))))"

text \<open>
  \<open>validate\<close>. The JSON schema is a file outside the source tree; the messages the schema
  validator yields for a mapping are the parameter \<open>schema\<close>.
\<close>

definition validate :: "(pydict \<Rightarrow> string list) \<Rightarrow> pydict \<Rightarrow> bool \<Rightarrow> bool \<Rightarrow> exn + pydict" where
  "validate schema md strict fix =
     (let md' = (if fix then fix_minor_issues md else md);
          schema_errors = map SchemaError (schema md')
      in bind_exn (validate_business_rules md') (\<lambda>business_errors.
           let all_errors = schema_errors @ business_errors
           in if all_errors \<noteq> [] \<and> strict then Inl (MetadataValidationError all_errors)
              else Inr md'))"

definition is_high_confidence_md :: "pydict \<Rightarrow> exn + bool" where
  "is_high_confidence_md md =
     (case md ''classification_confidence'' of
        None \<Rightarrow> Inr False
      | Some v \<Rightarrow> (case num_of v of None \<Rightarrow> Inl TypeError | Some x \<Rightarrow> Inr (9 / 10 \<le> x)))"

definition is_low_confidence_md :: "pydict \<Rightarrow> exn + bool" where
  "is_low_confidence_md md =
     (case md ''classification_confidence'' of
        None \<Rightarrow> Inr True
      | Some v \<Rightarrow> (case num_of v of None \<Rightarrow> Inl TypeError | Some x \<Rightarrow> Inr (x < 7 / 10)))"

text \<open>
  \<open>get_validation_summary\<close>. Its \<open>errors\<close> entry is the list carried by a
  \<open>MetadataValidationError\<close>, or the one-element list with the text of any other exception.
\<close>

datatype summary_errors_list = ErrorList "verror list" | ExceptionText exn

fun error_len :: "summary_errors_list \<Rightarrow> nat" where
  "error_len (ErrorList es) = length es"
| "error_len (ExceptionText e) = 1"

record validation_summary =
  is_valid :: bool
  error_count :: nat
  errors :: summary_errors_list
  is_high_confidence :: bool
  is_low_confidence :: bool
  has_required_fields :: bool

definition caught_errors :: "exn \<Rightarrow> summary_errors_list" where
  "caught_errors e = (case e of MetadataValidationError es \<Rightarrow> ErrorList es | _ \<Rightarrow> ExceptionText e)"

definition get_validation_summary :: "(pydict \<Rightarrow> string list) \<Rightarrow> pydict \<Rightarrow> exn + validation_summary" where
  "get_validation_summary schema md =
     (let outcome = validate schema md False True;
          valid = (case outcome of Inr _ \<Rightarrow> True | Inl e \<Rightarrow> False);
          errs = (case outcome of Inr _ \<Rightarrow> ErrorList [] | Inl e \<Rightarrow> caught_errors e)
      in bind_exn (is_high_confidence_md md) (\<lambda>high.
         bind_exn (is_low_confidence_md md) (\<lambda>low.
           Inr \<lparr> is_valid = valid, error_count = error_len errs, errors = errs,
                 is_high_confidence = high, is_low_confidence = low,
                 has_required_fields = list_all (\<lambda>f. md f \<noteq> None) required_metadata_fields \<rparr>)))"

text \<open>A metadata mapping that lacks the required field \<open>department\<close> and is tidy otherwise.\<close>

definition metadata_without_department :: pydict where
  "metadata_without_department =
     [''document_type'' \<mapsto> JStr ''HR Policy'', ''authority_level'' \<mapsto> JStr ''official'',
      ''topics'' \<mapsto> JList [JStr ''annual_leave''],
      ''intended_audience'' \<mapsto> JList [JStr ''all_employees'']]"

section \<open>Retriever\<close>

text \<open>
  \<open>_build_filters\<close>. The analysis is the dictionary decoded from the model's answer, so
  \<open>required_filters\<close> and the values under it can be any value. \<open>key in v\<close> and \<open>v[key]\<close>
  on a dictionary look the key up; on a list or a string \<open>in\<close> is membership or substring
  and indexing by a string raises; on a number or a boolean \<open>in\<close> raises.
\<close>

fun contains :: "string \<Rightarrow> string \<Rightarrow> bool" where
  "contains k [] = (k = [])"
| "contains k (c # s) = (if take (length k) (c # s) = k then True else contains k s)"

fun filter_lookup :: "json \<Rightarrow> string \<Rightarrow> exn + json option" where
  "filter_lookup (JObj kvs) k = Inr (map_of kvs k)"
| "filter_lookup (JList xs) k = (if JStr k \<in> set xs then Inl TypeError else Inr None)"
| "filter_lookup (JStr s) k = (if contains k s then Inl TypeError else Inr None)"
| "filter_lookup JNull k = Inr None"
| "filter_lookup v k = Inl TypeError"

text \<open>
  The clause for one field: an equality on the only element when \<open>len\<close> is 1, the
  \<open>$in\<close> form otherwise.
\<close>

definition first_element :: "json \<Rightarrow> exn + json" where
  "first_element v =
     (case v of
        JList xs \<Rightarrow> (case xs of [] \<Rightarrow> Inl IndexError | x # _ \<Rightarrow> Inr x)
      | JStr s \<Rightarrow> (case s of [] \<Rightarrow> Inl IndexError | c # _ \<Rightarrow> Inr (JStr [c]))
      | JObj kvs \<Rightarrow> Inl KeyError
      | _ \<Rightarrow> Inl TypeError)"

definition clause_for :: "string \<Rightarrow> json \<Rightarrow> exn + json" where
  "clause_for field v =
     bind_exn (py_len v) (\<lambda>n.
       if n = 1 then bind_exn (first_element v) (\<lambda>x. Inr (JObj [(field, x)]))
       else Inr (JObj [(field, JObj [(''$in'', v)])]))"

definition field_clauses :: "json \<Rightarrow> string \<Rightarrow> exn + json list" where
  "field_clauses required_filters field =
     bind_exn (filter_lookup required_filters field) (\<lambda>found.
       case found of
         None \<Rightarrow> Inr []
       | Some v \<Rightarrow> if truthy v then bind_exn (clause_for field v) (\<lambda>c. Inr [c]) else Inr [])"

definition build_filters :: "pydict \<Rightarrow> exn + json option" where
  "build_filters query_analysis =
     (let required_filters =
            (case query_analysis ''required_filters'' of None \<Rightarrow> JObj [] | Some v \<Rightarrow> v)
      in if \<not> truthy required_filters then Inr None
         else
           bind_exn (field_clauses required_filters ''document_type'') (\<lambda>c1.
           bind_exn (field_clauses required_filters ''department'') (\<lambda>c2.
             let where_clauses = c1 @ c2
             in case where_clauses of
                  [] \<Rightarrow> Inr None
                | [c] \<Rightarrow> Inr (Some c)
                | _ \<Rightarrow> Inr (Some (JObj [(''$and'', JList where_clauses)])))))"

text \<open>
  The filter as the specification words it, from the list of document types and the list
  of departments asked for (empty when none is asked for): one clause per non-empty list,
  an equality for a single value and set membership for several, joined by a logical and
  when there are two.
\<close>

definition spec_clause :: "string \<Rightarrow> json list \<Rightarrow> json" where
  "spec_clause field xs =
     (case xs of
        [x] \<Rightarrow> JObj [(field, x)]
      | _ \<Rightarrow> JObj [(field, JObj [(''$in'', JList xs)])])"

definition spec_filter :: "json list \<Rightarrow> json list \<Rightarrow> json option" where
  "spec_filter doc_types depts =
     (if doc_types = [] \<and> depts = [] then None
      else if depts = [] then Some (spec_clause ''document_type'' doc_types)
      else if doc_types = [] then Some (spec_clause ''department'' depts)
      else Some (JObj [(''$and'',
             JList [spec_clause ''document_type'' doc_types, spec_clause ''department'' depts])]))"

definition list_at :: "(string \<times> json) list \<Rightarrow> string \<Rightarrow> json list" where
  "list_at kvs k = (case map_of kvs k of Some (JList xs) \<Rightarrow> xs | _ \<Rightarrow> [])"

text \<open>
  \<open>_format_results\<close>. The four lists of a search result are read by position; a read past
  the end of a list raises \<open>IndexError\<close>. Distances are floats, modelled by reals.
\<close>

record search_results =
  ids :: "string list"
  documents :: "string list"
  metadatas :: "pydict list"
  distances :: "real list"

record result_chunk =
  rc_id :: string
  rc_text :: string
  rc_metadata :: pydict
  distance :: real
  score :: real

definition py_index :: "'a list \<Rightarrow> nat \<Rightarrow> exn + 'a" where
  "py_index xs i = (if i < length xs then Inr (xs ! i) else Inl IndexError)"

fun py_min :: "real list \<Rightarrow> real" where
  "py_min [] = 0"
| "py_min (x # xs) = fold min xs x"

fun py_max :: "real list \<Rightarrow> real" where
  "py_max [] = 0"
| "py_max (x # xs) = fold max xs x"

definition normalize_score :: "real \<Rightarrow> real \<Rightarrow> real \<Rightarrow> real" where
  "normalize_score min_dist dist_range d =
     (let s = (if dist_range > 0 then 1 - ((d - min_dist) / dist_range) else 1)
      in max 0 (min 1 s))"

definition format_chunk :: "search_results \<Rightarrow> real \<Rightarrow> real \<Rightarrow> nat \<Rightarrow> exn + result_chunk" where
  "format_chunk results min_dist dist_range i =
     bind_exn (py_index (distances results) i) (\<lambda>d.
     bind_exn (py_index (ids results) i) (\<lambda>cid.
     bind_exn (py_index (documents results) i) (\<lambda>doc.
     bind_exn (py_index (metadatas results) i) (\<lambda>m.
       Inr \<lparr> rc_id = cid, rc_text = doc, rc_metadata = m, distance = d,
             score = normalize_score min_dist dist_range d \<rparr>))))"

fun collect :: "(nat \<Rightarrow> exn + 'a) \<Rightarrow> nat list \<Rightarrow> exn + 'a list" where
  "collect f [] = Inr []"
| "collect f (i # is) = bind_exn (f i) (\<lambda>c. bind_exn (collect f is) (\<lambda>cs. Inr (c # cs)))"

definition format_results :: "search_results \<Rightarrow> exn + result_chunk list" where
  "format_results results =
     (if ids results = [] then Inr []
      else
        let ds = distances results;
            min_dist = (if ds \<noteq> [] then py_min ds else 0);
            dist_range = (if ds \<noteq> []
                          then (if py_max ds > py_min ds then py_max ds - py_min ds else 1)
                          else 1)
        in collect (format_chunk results min_dist dist_range) [0..<length (ids results)])"

text \<open>
  The entry a well-formed search result (four lists of one length) yields at position
  \<open>i\<close>, with the minimum and the maximum of the distances written as \<open>Min\<close> and \<open>Max\<close>.
\<close>

definition expected_chunk :: "search_results \<Rightarrow> nat \<Rightarrow> result_chunk" where
  "expected_chunk r i =
     \<lparr> rc_id = ids r ! i, rc_text = documents r ! i, rc_metadata = metadatas r ! i,
       distance = distances r ! i,
       score = normalize_score (Min (set (distances r)))
                 (if Max (set (distances r)) > Min (set (distances r))
                  then Max (set (distances r)) - Min (set (distances r)) else 1)
                 (distances r ! i) \<rparr>"

text \<open>Two query analyses and a search result with three hits.\<close>

definition analysis_one_department :: pydict where
  "analysis_one_department =
     [''intent'' \<mapsto> JStr ''factual'',
      ''required_filters'' \<mapsto> JObj [(''department'', JList [JStr ''HR'']),
                                     (''topics'', JList [JStr ''remote_work''])]]"

definition analysis_two_departments :: pydict where
  "analysis_two_departments =
     [''required_filters'' \<mapsto> JObj [(''document_type'', JList [JStr ''HR Policy'']),
                                     (''department'', JList [JStr ''HR'', JStr ''IT''])]]"

definition three_hits :: search_results where
  "three_hits = \<lparr> ids = [''d_chunk_0'', ''d_chunk_1'', ''d_chunk_2''],
                   documents = [''a'', ''b'', ''c''],
                   metadatas = [Map.empty, Map.empty, Map.empty],
                   distances = [1 / 5, 1 / 2, 3 / 5] \<rparr>"

section \<open>Orchestration: pipeline state and nodes\<close>

text \<open>
  \<open>GraphState\<close>: the three input entries and \<open>status\<close> are always there, every other
  entry is optional. The classification is kept as the dictionary \<open>to_dict\<close> makes of it.
\<close>

record graph_state =
  document_id :: string
  raw_text :: string
  filename :: "string option"
  classification :: "pydict option"
  extraction_strategy :: "string option"
  doc_metadata :: "pydict option"
  chunks :: "document_chunk list option"
  enriched_chunks :: "document_chunk list option"
  validation_errors :: "summary_errors_list option"
  validation_warnings :: "string list option"
  is_valid_flag :: "bool option"
  status :: string
  error :: "string option"
  error_stage :: "string option"
  processing_time :: "real option"
  tokens_used :: "int option"
  estimated_cost :: "real option"

definition create_initial_state :: "string \<Rightarrow> string \<Rightarrow> string option \<Rightarrow> graph_state" where
  "create_initial_state did txt fname =
     \<lparr> document_id = did, raw_text = txt,
       filename = (case fname of None \<Rightarrow> None | Some f \<Rightarrow> if f \<noteq> [] then Some f else None),
       classification = None, extraction_strategy = None, doc_metadata = None,
       chunks = None, enriched_chunks = None, validation_errors = None,
       validation_warnings = None, is_valid_flag = None, status = ''pending'',
       error = None, error_stage = None, processing_time = None, tokens_used = None,
       estimated_cost = None \<rparr>"

definition mark_as_failed :: "graph_state \<Rightarrow> string \<Rightarrow> string \<Rightarrow> graph_state" where
  "mark_as_failed s err stage = s\<lparr> status := ''failed'', error := Some err, error_stage := Some stage \<rparr>"

definition mark_as_completed :: "graph_state \<Rightarrow> graph_state" where
  "mark_as_completed s = s\<lparr> status := ''completed'' \<rparr>"

definition to_dict :: "classification_result \<Rightarrow> pydict" where
  "to_dict c =
     [''complexity'' \<mapsto> JStr (complexity c), ''document_type'' \<mapsto> JStr (document_type c),
      ''requires_deep_analysis'' \<mapsto> requires_deep_analysis c, ''confidence'' \<mapsto> confidence c,
      ''reasoning'' \<mapsto> reasoning c]"

text \<open>
  What the stages take from outside the repository, for one run. An exception enters the
  state only through \<open>str(e)\<close>, so a failing service is given by that text.
  \<^item> \<open>env_classify\<close>: \<open>get_classifier().classify(text, 2000)\<close>, the classification or the text
    of the exception raised;
  \<^item> \<open>env_extract\<close>: \<open>get_doc_extractor().extract\<close> on the text and the classification
    rebuilt from the state's dictionary;
  \<^item> \<open>env_tokenizer\<close>: the encoding the chunker loads, or the text of the exception of loading it;
  \<^item> \<open>env_validator_schema\<close>: the schema validator \<open>get_validator()\<close> builds, or the text of the
    exception (the schema file may be missing);
  \<^item> \<open>env_exn_str\<close>: \<open>str(e)\<close> of an exception raised by the validator's own code;
  \<^item> \<open>env_invoke_fault\<close>: the text of an exception raised by the graph engine outside the
    nodes, if it raises one;
  \<^item> \<open>env_usage_stats\<close>: the counters read from the model client after the run, or the text of
    the exception of reaching the client;
  \<^item> \<open>env_elapsed\<close>: the wall-clock time measured.
\<close>

record environment =
  env_settings :: settings
  env_classify :: "string \<Rightarrow> string + classification_result"
  env_extract :: "string \<Rightarrow> pydict \<Rightarrow> string + pydict"
  env_tokenizer :: "string + ((string \<Rightarrow> token list) \<times> (token list \<Rightarrow> string))"
  env_validator_schema :: "string + (pydict \<Rightarrow> string list)"
  env_exn_str :: "exn \<Rightarrow> string"
  env_invoke_fault :: "string option"
  env_usage_stats :: "string + (int \<times> real)"
  env_elapsed :: real

text \<open>\<open>str(KeyError(k))\<close>: the key in single quotes.\<close>

definition key_error_text :: "string \<Rightarrow> string" where
  "key_error_text k = [CHR 0x27] @ k @ [CHR 0x27]"

definition classify_document_node :: "environment \<Rightarrow> graph_state \<Rightarrow> graph_state" where
  "classify_document_node env s =
     (let s1 = s\<lparr> status := ''classifying'' \<rparr>
      in case env_classify env (raw_text s1) of
           Inr c \<Rightarrow>
             s1\<lparr> classification := Some (to_dict c),
                 extraction_strategy := Some (get_extraction_strategy c),
                 status := ''extracting_metadata'' \<rparr>
         | Inl msg \<Rightarrow> mark_as_failed s1 (''Classification failed: '' @ msg) ''classification'')"

definition extract_doc_metadata_node :: "environment \<Rightarrow> graph_state \<Rightarrow> graph_state" where
  "extract_doc_metadata_node env s =
     (case classification s of
        None \<Rightarrow>
          mark_as_failed s
            (''Document metadata extraction failed: '' @ key_error_text ''classification'')
            ''doc_metadata_extraction''
      | Some cd \<Rightarrow>
          (case env_extract env (raw_text s) cd of
             Inr md \<Rightarrow> s\<lparr> doc_metadata := Some md, status := ''chunking'' \<rparr>
           | Inl msg \<Rightarrow>
               mark_as_failed s (''Document metadata extraction failed: '' @ msg)
                 ''doc_metadata_extraction''))"

text \<open>
  The chunking node calls the chunker with the fixed size 500 and overlap 50. Its result
  is optional because the chunker's loop is a partial function.
\<close>

definition chunk_failed :: "graph_state \<Rightarrow> string \<Rightarrow> graph_state" where
  "chunk_failed s msg = mark_as_failed s (''Document chunking failed: '' @ msg) ''chunking''"

definition chunk_document_node :: "environment \<Rightarrow> graph_state \<Rightarrow> graph_state option" where
  "chunk_document_node env s =
     (case doc_metadata s of
        None \<Rightarrow> Some (chunk_failed s (key_error_text ''doc_metadata''))
      | Some md \<Rightarrow>
          (case env_tokenizer env of
             Inl msg \<Rightarrow> Some (chunk_failed s msg)
           | Inr (encode, decode) \<Rightarrow>
               (case chunk_document (env_settings env) encode decode (raw_text s)
                       (Some 500) (Some 50) (Some md) of
                  None \<Rightarrow> None
                | Some cs \<Rightarrow>
                    (let s1 = s\<lparr> chunks := Some cs \<rparr>
                     in case classification s1 of
                          None \<Rightarrow> Some (chunk_failed s1 (key_error_text ''classification''))
                        | Some cd \<Rightarrow>
                            (case cd ''requires_deep_analysis'' of
                               None \<Rightarrow>
                                 Some (chunk_failed s1 (key_error_text ''requires_deep_analysis''))
                             | Some v \<Rightarrow>
                                 Some (s1\<lparr> status := (if truthy v then ''extracting_chunks''
                                                      else ''validating'') \<rparr>))))))"

definition extract_chunk_metadata_node :: "graph_state \<Rightarrow> graph_state" where
  "extract_chunk_metadata_node s =
     (case chunks s of
        None \<Rightarrow>
          mark_as_failed s (''Chunk metadata extraction failed: '' @ key_error_text ''chunks'')
            ''chunk_metadata_extraction''
      | Some cs \<Rightarrow> s\<lparr> enriched_chunks := Some cs, status := ''validating'' \<rparr>)"

definition validation_failed :: "graph_state \<Rightarrow> string \<Rightarrow> graph_state" where
  "validation_failed s msg =
     mark_as_failed s (''Validation failed unexpectedly: '' @ msg) ''validation''"

definition validation_rejected :: "graph_state \<Rightarrow> verror list \<Rightarrow> graph_state" where
  "validation_rejected s es =
     s\<lparr> is_valid_flag := Some False, validation_errors := Some (ErrorList es),
        validation_warnings := Some [], status := ''completed'' \<rparr>"

definition validate_metadata_node :: "environment \<Rightarrow> graph_state \<Rightarrow> graph_state" where
  "validate_metadata_node env s =
     (case env_validator_schema env of
        Inl msg \<Rightarrow> validation_failed s msg
      | Inr schema \<Rightarrow>
          (case doc_metadata s of
             None \<Rightarrow> validation_failed s (key_error_text ''doc_metadata'')
           | Some md \<Rightarrow>
               (case validate schema md False True of
                  Inl e \<Rightarrow>
                    (case e of
                       MetadataValidationError es \<Rightarrow> validation_rejected s es
                     | _ \<Rightarrow> validation_failed s (env_exn_str env e))
                | Inr validated \<Rightarrow>
                    (let s1 = s\<lparr> doc_metadata := Some validated \<rparr>
                     in case get_validation_summary schema validated of
                          Inl e \<Rightarrow>
                            (case e of
                               MetadataValidationError es \<Rightarrow> validation_rejected s1 es
                             | _ \<Rightarrow> validation_failed s1 (env_exn_str env e))
                        | Inr summary \<Rightarrow>
                            s1\<lparr> is_valid_flag := Some (is_valid summary),
                                validation_errors := Some (errors summary),
                                validation_warnings :=
                                  Some (if is_low_confidence summary
                                        then [''Low confidence classification - manual review recommended'']
                                        else []),
                                status := ''completed'' \<rparr>))))"

definition handle_error_node :: "graph_state \<Rightarrow> graph_state" where
  "handle_error_node s = s"

definition should_extract_chunk_metadata :: "graph_state \<Rightarrow> string" where
  "should_extract_chunk_metadata s =
     (case classification s of
        None \<Rightarrow> ''validate''
      | Some cd \<Rightarrow>
          (case cd ''requires_deep_analysis'' of
             None \<Rightarrow> ''validate''
           | Some v \<Rightarrow> if truthy v then ''extract_chunks'' else ''validate''))"

text \<open>
  The compiled graph: classify, extract, chunk, each followed by the test for
  \<open>failed\<close>; then the optional chunk-metadata node, whose edge to validation is
  unconditional; then validation.
\<close>

definition graph_invoke :: "environment \<Rightarrow> graph_state \<Rightarrow> graph_state option" where
  "graph_invoke env s0 =
     (let s1 = classify_document_node env s0
      in if status s1 = ''failed'' then Some (handle_error_node s1)
         else
           let s2 = extract_doc_metadata_node env s1
           in if status s2 = ''failed'' then Some (handle_error_node s2)
              else
                case chunk_document_node env s2 of
                  None \<Rightarrow> None
                | Some s3 \<Rightarrow>
                    if status s3 = ''failed'' then Some (handle_error_node s3)
                    else if should_extract_chunk_metadata s3 = ''extract_chunks''
                    then Some (validate_metadata_node env (extract_chunk_metadata_node s3))
                    else Some (validate_metadata_node env s3))"

text \<open>
  \<open>MetadataExtractionPipeline.run\<close>: the graph and the read-out of the usage counters
  inside \<open>try\<close>; the handler marks the initial state as failed with \<open>str(e)\<close>.
\<close>

definition run_handler :: "environment \<Rightarrow> graph_state \<Rightarrow> string \<Rightarrow> graph_state" where
  "run_handler env initial_state msg =
     initial_state\<lparr> status := ''failed'', error := Some msg,
                     error_stage := Some ''pipeline_execution'',
                     processing_time := Some (env_elapsed env) \<rparr>"

definition run :: "environment \<Rightarrow> string \<Rightarrow> string \<Rightarrow> string option \<Rightarrow> graph_state option" where
  "run env did document_text fname =
     (let initial_state = create_initial_state did document_text fname
      in case env_invoke_fault env of
           Some msg \<Rightarrow> Some (run_handler env initial_state msg)
         | None \<Rightarrow>
             (case graph_invoke env initial_state of
                None \<Rightarrow> None
              | Some final_state \<Rightarrow>
                  (case env_usage_stats env of
                     Inl msg \<Rightarrow> Some (run_handler env initial_state msg)
                   | Inr (tokens, cost) \<Rightarrow>
                       Some (final_state\<lparr> processing_time := Some (env_elapsed env),
                                          tokens_used := Some tokens,
                                          estimated_cost := Some cost \<rparr>))))"

text \<open>
  A failure is recorded in a state when both \<open>error\<close> and \<open>error_stage\<close> are present and
  non-empty.
\<close>

definition failure_recorded :: "graph_state \<Rightarrow> bool" where
  "failure_recorded s =
     (case error s of
        None \<Rightarrow> False
      | Some e \<Rightarrow> (case error_stage s of None \<Rightarrow> False | Some g \<Rightarrow> e \<noteq> [] \<and> g \<noteq> []))"

text \<open>
  Three environments: the classifier's model call times out; the same with the graph
  engine raising an exception that has no message; the classifier answers and the
  extractor's model call fails.
\<close>

definition env_classifier_down :: environment where
  "env_classifier_down =
     \<lparr> env_settings = default_settings,
       env_classify = (\<lambda>txt. Inl ''timeout''),
       env_extract = (\<lambda>txt cd. Inl ''timeout''),
       env_tokenizer = Inr (char_encode, char_decode),
       env_validator_schema = Inr (\<lambda>md. []),
       env_exn_str = (\<lambda>e. ''TypeError''),
       env_invoke_fault = None,
       env_usage_stats = Inr (0, 0),
       env_elapsed = 1 \<rparr>"

definition env_silent_fault :: environment where
  "env_silent_fault = env_classifier_down \<lparr> env_invoke_fault := Some [] \<rparr>"

definition env_extractor_down :: environment where
  "env_extractor_down =
     env_classifier_down \<lparr> env_classify := (\<lambda>txt. Inr sample_classification),
                           env_extract := (\<lambda>txt cd. Inl ''bad JSON'') \<rparr>"

section \<open>Chunker: termination and overlap\<close>

lemma div_shift: "0 < (step::int) \<Longrightarrow> (a - step) div step = a div step - 1"
  using div_add_self2[of step "a - step"] by simp

lemma chunk_count_step:
  assumes "0 < step" "start < int n"
  shows "chunk_count n start step = Suc (chunk_count n (start + step) step)"
proof (cases "start + step < int n")
  case True
  define x where "x = int n - start - 1"
  have a: "int n - (start + step) - 1 = x - step" by (simp add: x_def)
  have "0 \<le> (x - step) div step"
    using True assms(1) by (simp add: pos_imp_zdiv_nonneg_iff x_def)
  then have "nat (x div step + 1) = Suc (nat ((x - step) div step + 1))"
    using div_shift[OF assms(1), of x] by simp
  then show ?thesis using True assms(2) unfolding chunk_count_def a x_def[symmetric] by simp
next
  case False
  have "(int n - start - 1) div step = 0"
    using False assms by (intro div_pos_pos_trivial) auto
  then show ?thesis using False assms by (simp add: chunk_count_def)
qed

lemma chunk_map_Suc:
  "map (\<lambda>j. f (start + int j * step) (num + int j)) [0..<Suc k]
      = f start num # map (\<lambda>j. f (start + step + int j * step) (num + 1 + int j)) [0..<k]"
proof -
  have "map (\<lambda>j. f (start + int j * step) (num + int j)) [0..<Suc k]
      = f start num # map (\<lambda>j. f (start + int (Suc j) * step) (num + int (Suc j))) [0..<k]"
    by (simp add: upt_conv_Cons map_Suc_upt[symmetric] del: upt_Suc)
  also have "(\<lambda>j. f (start + int (Suc j) * step) (num + int (Suc j)))
           = (\<lambda>j. f (start + step + int j * step) (num + 1 + int j))"
    by (rule ext) (simp add: algebra_simps)
  finally show ?thesis .
qed

lemma chunk_loop_closed:
  assumes "0 < csize - coverlap"
  shows "chunk_loop decode tokens csize coverlap md start num acc =
         Some (acc @ map (\<lambda>j. make_chunk decode tokens csize md (start + int j * (csize - coverlap)) (num + int j))
                      [0..<chunk_count (length tokens) start (csize - coverlap)])"
proof (induction "chunk_count (length tokens) start (csize - coverlap)" arbitrary: start num acc)
  case 0
  then have "\<not> start < int (length tokens)"
    using chunk_count_step[OF assms, of start "length tokens"] by auto
  then show ?case using 0 by (subst chunk_loop.simps) simp
next
  case (Suc k)
  then have lt: "start < int (length tokens)"
    by (auto simp: chunk_count_def split: if_splits)
  from chunk_count_step[OF assms lt] Suc(2)
  have k: "k = chunk_count (length tokens) (start + (csize - coverlap)) (csize - coverlap)" by simp
  have "chunk_loop decode tokens csize coverlap md start num acc =
        chunk_loop decode tokens csize coverlap md (start + (csize - coverlap)) (num + 1)
          (acc @ [make_chunk decode tokens csize md start num])"
    using lt by (subst chunk_loop.simps) simp
  also have "\<dots> = Some ((acc @ [make_chunk decode tokens csize md start num]) @
      map (\<lambda>j. make_chunk decode tokens csize md (start + (csize - coverlap) + int j * (csize - coverlap)) (num + 1 + int j)) [0..<k])"
    using Suc.hyps(1)[OF k] k by simp
  also have "\<dots> = Some (acc @ map (\<lambda>j. make_chunk decode tokens csize md (start + int j * (csize - coverlap)) (num + int j)) [0..<Suc k])"
    unfolding chunk_map_Suc[of "make_chunk decode tokens csize md"] by simp
  finally show ?case using Suc(2) by simp
qed

lemma chunk_loop_diverges_aux:
  assumes "chunk_loop decode tokens csize coverlap md start num acc = Some cs"
  shows "\<not> (csize \<le> coverlap \<and> start < int (length tokens))"
  using assms
proof (induction rule: chunk_loop.raw_induct[rotated 1, consumes 1, case_names step])
  case (step f decode tokens csize coverlap md start num acc cs)
  show ?case
  proof
    assume a: "csize \<le> coverlap \<and> start < int (length tokens)"
    then have b: "csize \<le> coverlap \<and> start + (csize - coverlap) < int (length tokens)" by auto
    from step(2) a have "f decode tokens csize coverlap md (start + (csize - coverlap)) (num + 1)
             (acc @ [make_chunk decode tokens csize md start num]) = Some cs" by simp
    from step(1)[OF this] b show False by simp
  qed
qed

lemma chunk_loop_diverges:
  "csize \<le> coverlap \<Longrightarrow> start < int (length tokens) \<Longrightarrow>
   chunk_loop decode tokens csize coverlap md start num acc = None"
  using chunk_loop_diverges_aux[of decode tokens csize coverlap md start num acc]
  by (cases "chunk_loop decode tokens csize coverlap md start num acc") auto

lemma chunk_document_zero_overlap:
  assumes "encode txt \<noteq> []" "csize \<noteq> 0" "csize \<le> chunk_overlap st" "chunk_overlap st \<noteq> 0"
  shows "chunk_document st encode decode txt (Some csize) (Some 0) md = None"
  using assms by (simp add: chunk_document_def or_default_def chunk_loop_diverges)

text \<open>
  Claim C4. \<open>chunk_document\<close> is claimed to return for every text whenever the overlap it
  is given is below the size it is given. The call with \<open>chunk_size = 10\<close> and
  \<open>chunk_overlap = 0\<close> satisfies that, but \<open>chunk_overlap or settings.chunk_overlap\<close>
  replaces the explicit \<open>0\<close> by the configured overlap \<open>50\<close>; the index then moves by
  \<open>10 - 50\<close> on every pass and the loop never ends, already on the one-token text
  \<open>a\<close>. (For a positive step the loop does return: \<open>chunk_document_terminates\<close>; and
  \<open>validate_settings\<close> rejects configured values with overlap not below size:
  \<open>validate_settings_rejects\<close>.)
\<close>

theorem chunk_document_zero_overlap_diverges:
  "chunk_document default_settings char_encode char_decode ''a'' (Some 10) (Some 0) None = None"
  by (simp add: chunk_document_def or_default_def default_settings_def char_encode_def
        chunk_loop_diverges)

lemma chunk_document_terminates:
  assumes "or_default overlap_arg (chunk_overlap st) < or_default size_arg (chunk_size st)"
  shows "\<exists>cs. chunk_document st encode decode txt size_arg overlap_arg md = Some cs"
  using assms by (simp add: chunk_document_def Let_def chunk_loop_closed)

lemma validate_settings_rejects:
  "chunk_size st \<le> chunk_overlap st \<Longrightarrow> \<exists>e. validate_settings st b = Inl e"
  by (simp add: validate_settings_def)

lemma validate_settings_accepts:
  "validate_settings st b = Inr () \<Longrightarrow> chunk_overlap st < chunk_size st"
  by (simp add: validate_settings_def split: if_splits)

lemma py_slice_span:
  "py_slice tokens (int i * (csize - coverlap)) (int i * (csize - coverlap) + csize) =
   take (span_hi (length tokens) csize coverlap i - span_lo (length tokens) csize coverlap i)
        (drop (span_lo (length tokens) csize coverlap i) tokens)"
  by (simp add: py_slice_def span_lo_def span_hi_def Let_def)

lemma int_le_div_iff:
  assumes "0 < (c::int)"
  shows "(a \<le> b div c) = (a * c \<le> b)"
proof
  assume "a \<le> b div c"
  then have "a * c \<le> (b div c) * c" using assms by (simp add: mult_right_mono)
  also have "\<dots> \<le> b" using assms
    by (metis mult.commute pos_mod_sign add_increasing2 mult_div_mod_eq order_refl)
  finally show "a * c \<le> b" .
next
  assume "a * c \<le> b"
  then have "(a * c) div c \<le> b div c" using assms by (rule zdiv_mono1)
  then show "a \<le> b div c" using assms by simp
qed

lemma less_chunk_count:
  assumes "0 < step"
  shows "(i < chunk_count n 0 step) = (int i * step < int n)"
proof (cases "0 < n")
  case False
  then show ?thesis using assms by (simp add: chunk_count_def mult_nonneg_nonneg leD)
next
  case True
  have q: "0 \<le> (int n - 1) div step" using True assms by (simp add: pos_imp_zdiv_nonneg_iff)
  have "(i < chunk_count n 0 step) = (int i \<le> (int n - 1) div step)"
    using True q by (auto simp: chunk_count_def)
  also have "\<dots> = (int i * step \<le> int n - 1)"
    using assms by (rule int_le_div_iff)
  finally show ?thesis by auto
qed



lemma shared_tokens_full_any:
  assumes "0 \<le> coverlap" "coverlap < csize"
      and "int i * (csize - coverlap) + csize \<le> int n"
  shows "shared_tokens n csize coverlap i = nat coverlap"
proof -
  define a where "a = int i * (csize - coverlap)"
  have a0: "0 \<le> a" using assms by (simp add: a_def)
  have a1: "int (Suc i) * (csize - coverlap) = a + (csize - coverlap)"
    by (simp add: a_def algebra_simps)
  have lo: "span_lo n csize coverlap i = nat a"
    using a0 assms by (simp add: span_lo_def slice_index_def a_def[symmetric])
  have hi: "span_hi n csize coverlap i = nat (a + csize)"
    using a0 assms by (simp add: span_hi_def slice_index_def a_def[symmetric])
  have lo': "span_lo n csize coverlap (Suc i) = nat (a + (csize - coverlap))"
    using a0 assms unfolding span_lo_def a1 by (simp add: slice_index_def a_def[symmetric])
  have hi': "nat (a + csize) \<le> span_hi n csize coverlap (Suc i)"
    using a0 assms unfolding span_hi_def a1 by (simp add: slice_index_def a_def[symmetric]) linarith
  have "{nat a ..< nat (a + csize)} \<inter>
        {nat (a + (csize - coverlap)) ..< span_hi n csize coverlap (Suc i)}
        = {nat (a + (csize - coverlap)) ..< nat (a + csize)}"
    using a0 assms hi' by auto
  then show ?thesis
    using a0 assms unfolding shared_tokens_def lo hi lo' by simp
qed

lemma shared_tokens_short:
  assumes "0 \<le> coverlap" "coverlap < csize"
      and nxt: "int (Suc i) * (csize - coverlap) < int n"
      and short: "int n < int i * (csize - coverlap) + csize"
  shows "shared_tokens n csize coverlap i = n - nat (int (Suc i) * (csize - coverlap))"
    and "shared_tokens n csize coverlap i < nat coverlap"
proof -
  define a where "a = int i * (csize - coverlap)"
  define m where "m = int n"
  have a0: "0 \<le> a" using assms by (simp add: a_def)
  have a1: "int (Suc i) * (csize - coverlap) = a + (csize - coverlap)"
    by (simp add: a_def algebra_simps)
  have n1: "a + (csize - coverlap) < m" using nxt unfolding a1 m_def .
  have n2: "m < a + csize" using short unfolding a_def m_def .
  have an: "a < m" using n1 assms by arith
  have lo: "span_lo n csize coverlap i = nat a"
    using a0 an by (simp add: span_lo_def slice_index_def a_def[symmetric] m_def)
  have hi: "span_hi n csize coverlap i = n"
    using a0 n2 assms by (simp add: span_hi_def slice_index_def a_def[symmetric] m_def)
  have lo': "span_lo n csize coverlap (Suc i) = nat (a + (csize - coverlap))"
    using a0 assms n1 unfolding span_lo_def a1 by (simp add: slice_index_def m_def)
  have hi': "span_hi n csize coverlap (Suc i) = n"
    using a0 assms n2 unfolding span_hi_def a1 by (simp add: slice_index_def m_def)
  have "{nat a ..< n} \<inter> {nat (a + (csize - coverlap)) ..< n} = {nat (a + (csize - coverlap)) ..< n}"
    using a0 assms by auto
  then have s: "shared_tokens n csize coverlap i = n - nat (a + (csize - coverlap))"
    unfolding shared_tokens_def lo hi lo' hi' by simp
  show "shared_tokens n csize coverlap i = n - nat (int (Suc i) * (csize - coverlap))"
    unfolding s a1 ..
  have "int (n - nat (a + (csize - coverlap))) = m - (a + (csize - coverlap))"
    using a0 assms n1 by (simp add: m_def)
  also have "\<dots> < coverlap" using n2 by arith
  finally show "shared_tokens n csize coverlap i < nat coverlap"
    unfolding s using assms(1) by simp
qed

lemma chunk_document_effective:
  assumes "csize = or_default size_arg (chunk_size st)"
      and "coverlap = or_default overlap_arg (chunk_overlap st)"
      and "coverlap < csize"
  shows "chunk_document st encode decode txt size_arg overlap_arg md =
         Some (map (\<lambda>j. make_chunk decode (encode txt) csize md (int j * (csize - coverlap)) (int j))
                   [0..<chunk_count (length (encode txt)) 0 (csize - coverlap)])"
  using assms by (simp add: chunk_document_def Let_def chunk_loop_closed)

lemma chunk_document_closed:
  assumes "0 < coverlap" "coverlap < csize"
  shows "chunk_document st encode decode txt (Some csize) (Some coverlap) md =
         Some (map (\<lambda>j. make_chunk decode (encode txt) csize md (int j * (csize - coverlap)) (int j))
                   [0..<chunk_count (length (encode txt)) 0 (csize - coverlap)])"
proof -
  have "or_default (Some csize) (chunk_size st) = csize" "or_default (Some coverlap) (chunk_overlap st) = coverlap"
    using assms by (auto simp: or_default_def)
  then show ?thesis using assms
    by (simp add: chunk_document_def Let_def chunk_loop_closed)
qed

lemma or_default_given:
  "overlap_arg \<noteq> Some 0 \<Longrightarrow>
   or_default overlap_arg d = (case overlap_arg of None \<Rightarrow> d | Some v \<Rightarrow> v)"
  by (cases overlap_arg) (simp_all add: or_default_def)

text \<open>
  Claim C3, as amended. Let the size and the overlap be the arguments where they are given
  and the settings' values where they are not, the overlap argument not being an explicit
  \<open>0\<close>, and let \<open>0 \<le> coverlap < csize\<close>. Then the chunker returns a list in which
  chunk \<open>i\<close> has \<open>chunk_number = i\<close> and holds the tokens of the slice that starts at
  \<open>i * (csize - coverlap)\<close>. Chunks \<open>i\<close> and \<open>i + 1\<close> share exactly \<open>coverlap\<close> tokens
  whenever chunk \<open>i\<close> is full (its slice ends inside the token list); when chunk \<open>i\<close>
  is cut short by the end of the tokens they share the tokens from the start of chunk
  \<open>i + 1\<close> to the end, fewer than \<open>coverlap\<close>. With \<open>2 * coverlap \<le> csize\<close> every
  pair but possibly the last one shares exactly \<open>coverlap\<close>.
\<close>

theorem chunk_document_overlap:
  assumes "csize = (case size_arg of None \<Rightarrow> chunk_size st | Some v \<Rightarrow> v)"
      and "coverlap = (case overlap_arg of None \<Rightarrow> chunk_overlap st | Some v \<Rightarrow> v)"
      and "overlap_arg \<noteq> Some 0"
      and "0 \<le> coverlap" "coverlap < csize"
  shows "\<exists>cs. chunk_document st encode decode txt size_arg overlap_arg md = Some cs \<and>
     (\<forall>i<length cs. chunk_number (cs ! i) = int i \<and>
        chunk_text (cs ! i) =
          decode (py_slice (encode txt) (int i * (csize - coverlap)) (int i * (csize - coverlap) + csize))) \<and>
     (\<forall>i. Suc i < length cs \<longrightarrow> int i * (csize - coverlap) + csize \<le> int (length (encode txt)) \<longrightarrow>
        shared_tokens (length (encode txt)) csize coverlap i = nat coverlap) \<and>
     (\<forall>i. Suc i < length cs \<longrightarrow> int (length (encode txt)) < int i * (csize - coverlap) + csize \<longrightarrow>
        shared_tokens (length (encode txt)) csize coverlap i =
          length (encode txt) - nat (int (Suc i) * (csize - coverlap)) \<and>
        shared_tokens (length (encode txt)) csize coverlap i < nat coverlap) \<and>
     (2 * coverlap \<le> csize \<longrightarrow>
        (\<forall>i. Suc (Suc i) < length cs \<longrightarrow>
          shared_tokens (length (encode txt)) csize coverlap i = nat coverlap))"
proof -
  define n where "n = length (encode txt)"
  define cs where "cs = map (\<lambda>j. make_chunk decode (encode txt) csize md (int j * (csize - coverlap)) (int j))
                   [0..<chunk_count n 0 (csize - coverlap)]"
  have size_nz: "size_arg \<noteq> Some 0" using assms(1,4,5) by (cases size_arg) auto
  have e1: "csize = or_default size_arg (chunk_size st)"
    using assms(1) or_default_given[OF size_nz] by simp
  have e2: "coverlap = or_default overlap_arg (chunk_overlap st)"
    using assms(2) or_default_given[OF assms(3)] by simp
  have run: "chunk_document st encode decode txt size_arg overlap_arg md = Some cs"
    unfolding cs_def n_def by (rule chunk_document_effective[OF e1 e2 assms(5)])
  have len: "length cs = chunk_count n 0 (csize - coverlap)" by (simp add: cs_def)
  have step: "0 < csize - coverlap" using assms by simp
  have fields: "\<forall>i<length cs. chunk_number (cs ! i) = int i \<and>
        chunk_text (cs ! i) =
          decode (py_slice (encode txt) (int i * (csize - coverlap)) (int i * (csize - coverlap) + csize))"
    by (simp add: cs_def make_chunk_def Let_def)
  have full: "\<forall>i. Suc i < length cs \<longrightarrow> int i * (csize - coverlap) + csize \<le> int n \<longrightarrow>
        shared_tokens n csize coverlap i = nat coverlap"
    using shared_tokens_full_any[OF assms(4,5)] by blast
  have short: "\<forall>i. Suc i < length cs \<longrightarrow> int n < int i * (csize - coverlap) + csize \<longrightarrow>
        shared_tokens n csize coverlap i = n - nat (int (Suc i) * (csize - coverlap)) \<and>
        shared_tokens n csize coverlap i < nat coverlap"
  proof (intro allI impI)
    fix i assume i: "Suc i < length cs" and s: "int n < int i * (csize - coverlap) + csize"
    from i have nx: "int (Suc i) * (csize - coverlap) < int n"
      unfolding len less_chunk_count[OF step] .
    from shared_tokens_short[OF assms(4,5) nx s]
    show "shared_tokens n csize coverlap i = n - nat (int (Suc i) * (csize - coverlap)) \<and>
        shared_tokens n csize coverlap i < nat coverlap" by (intro conjI)
  qed
  have half: "2 * coverlap \<le> csize \<longrightarrow>
        (\<forall>i. Suc (Suc i) < length cs \<longrightarrow> shared_tokens n csize coverlap i = nat coverlap)"
  proof (intro impI allI)
    fix i assume h: "2 * coverlap \<le> csize" and i: "Suc (Suc i) < length cs"
    define a where "a = int i * (csize - coverlap)"
    define m where "m = int n"
    from i have "int (Suc (Suc i)) * (csize - coverlap) < m"
      unfolding len less_chunk_count[OF step] m_def .
    then have "a + 2 * (csize - coverlap) < m"
      by (simp add: algebra_simps a_def)
    then have "a + csize \<le> m" using h by arith
    then have "int i * (csize - coverlap) + csize \<le> int n" by (simp add: a_def m_def)
    then show "shared_tokens n csize coverlap i = nat coverlap"
      by (rule shared_tokens_full_any[OF assms(4,5)])
  qed
  show ?thesis using run fields full short half unfolding n_def by blast
qed

text \<open>
  The theorem on the default path, with a configured size of 3 and overlap of 0 (three
  chunks, the last is \<open>g\<close>), and with the explicit arguments 3 and 1 (four chunks, the
  third is \<open>efg\<close>).
\<close>

theorem chunk_document_overlap_witness:
  "(\<exists>cs. chunk_document settings_no_overlap char_encode char_decode ''abcdefg'' None None None = Some cs \<and>
      length cs = 3 \<and> chunk_number (cs ! 2) = 2 \<and> chunk_text (cs ! 2) = ''g'' \<and>
      shared_tokens 7 3 0 0 = 0) \<and>
   (\<exists>cs. chunk_document default_settings char_encode char_decode ''abcdefg'' (Some 3) (Some 1) None = Some cs \<and>
      length cs = 4 \<and> chunk_number (cs ! 2) = 2 \<and> chunk_text (cs ! 2) = ''efg'' \<and>
      shared_tokens 7 3 1 1 = 1)"
proof -
  have n7: "length (char_encode ''abcdefg'') = 7" by (simp add: char_encode_def)
  \<comment> \<open>the default path with a configured overlap of 0\<close>
  have a1: "(3::int) = (case (None :: int option) of None \<Rightarrow> chunk_size settings_no_overlap | Some v \<Rightarrow> v)"
    and a2: "(0::int) = (case (None :: int option) of None \<Rightarrow> chunk_overlap settings_no_overlap | Some v \<Rightarrow> v)"
    and a3: "(None :: int option) \<noteq> Some 0" and a4: "(0::int) \<le> 0" and a5: "(0::int) < 3"
    by (simp_all add: settings_no_overlap_def)
  have c1: "chunk_count (length (char_encode ''abcdefg'')) 0 3 = 3"
    by (simp add: chunk_count_def char_encode_def)
  have run1: "chunk_document settings_no_overlap char_encode char_decode ''abcdefg'' None None None =
    Some (map (\<lambda>j. make_chunk char_decode (char_encode ''abcdefg'') 3 None (int j * (3 - 0)) (int j)) [0..<3])"
    using chunk_document_effective[of 3 None settings_no_overlap 0 None char_encode char_decode "''abcdefg''" None]
    by (simp add: c1 or_default_def settings_no_overlap_def)
  from chunk_document_overlap[OF a1 a2 a3 a4 a5, of char_encode char_decode "''abcdefg''" None]
  obtain cs where cs: "chunk_document settings_no_overlap char_encode char_decode ''abcdefg'' None None None = Some cs"
    and f: "\<forall>i<length cs. chunk_number (cs ! i) = int i \<and>
        chunk_text (cs ! i) =
          char_decode (py_slice (char_encode ''abcdefg'') (int i * (3 - 0)) (int i * (3 - 0) + 3))"
    and s: "\<forall>i. Suc i < length cs \<longrightarrow> int i * (3 - 0) + 3 \<le> int (length (char_encode ''abcdefg'')) \<longrightarrow>
        shared_tokens (length (char_encode ''abcdefg'')) 3 0 i = nat 0"
    by blast
  from cs run1 have l: "length cs = 3" by auto
  from f[rule_format, of 2] l have "chunk_number (cs ! 2) = 2 \<and> chunk_text (cs ! 2) =
          char_decode (py_slice (char_encode ''abcdefg'') (2 * (3 - 0)) (2 * (3 - 0) + 3))"
    by simp
  moreover have "char_decode (py_slice (char_encode ''abcdefg'') (2 * (3 - 0)) (2 * (3 - 0) + 3)) = ''g''"
    by (simp add: char_encode_def char_decode_def py_slice_def slice_index_def del: of_char_eq_iff)
       code_simp
  ultimately have t: "chunk_number (cs ! 2) = 2 \<and> chunk_text (cs ! 2) = ''g''"
    by simp
  from s[rule_format, of 0, unfolded n7] l have "shared_tokens 7 3 0 0 = 0"
    by simp
  with cs l t have first: "\<exists>cs. chunk_document settings_no_overlap char_encode char_decode ''abcdefg'' None None None = Some cs \<and>
      length cs = 3 \<and> chunk_number (cs ! 2) = 2 \<and> chunk_text (cs ! 2) = ''g'' \<and>
      shared_tokens 7 3 0 0 = 0" by blast
  \<comment> \<open>explicit arguments\<close>
  have b1: "(3::int) = (case Some 3 of None \<Rightarrow> chunk_size default_settings | Some v \<Rightarrow> v)"
    and b2: "(1::int) = (case Some 1 of None \<Rightarrow> chunk_overlap default_settings | Some v \<Rightarrow> v)"
    and b3: "Some (1::int) \<noteq> Some 0" and b4: "(0::int) \<le> 1" and b5: "(1::int) < 3"
    by simp_all
  have c2: "chunk_count (length (char_encode ''abcdefg'')) 0 2 = 4"
    by (simp add: chunk_count_def char_encode_def)
  have run2: "chunk_document default_settings char_encode char_decode ''abcdefg'' (Some 3) (Some 1) None =
    Some (map (\<lambda>j. make_chunk char_decode (char_encode ''abcdefg'') 3 None (int j * (3 - 1)) (int j)) [0..<4])"
    using chunk_document_effective[of 3 "Some 3" default_settings 1 "Some 1" char_encode char_decode "''abcdefg''" None]
    by (simp add: c2 or_default_def)
  from chunk_document_overlap[OF b1 b2 b3 b4 b5, of char_encode char_decode "''abcdefg''" None]
  obtain ds where ds: "chunk_document default_settings char_encode char_decode ''abcdefg'' (Some 3) (Some 1) None = Some ds"
    and g: "\<forall>i<length ds. chunk_number (ds ! i) = int i \<and>
        chunk_text (ds ! i) =
          char_decode (py_slice (char_encode ''abcdefg'') (int i * (3 - 1)) (int i * (3 - 1) + 3))"
    and u: "\<forall>i. Suc i < length ds \<longrightarrow> int i * (3 - 1) + 3 \<le> int (length (char_encode ''abcdefg'')) \<longrightarrow>
        shared_tokens (length (char_encode ''abcdefg'')) 3 1 i = nat 1"
    by blast
  from ds run2 have l2: "length ds = 4" by auto
  from g[rule_format, of 2] l2 have "chunk_number (ds ! 2) = 2 \<and> chunk_text (ds ! 2) =
          char_decode (py_slice (char_encode ''abcdefg'') (2 * (3 - 1)) (2 * (3 - 1) + 3))"
    by simp
  moreover have "char_decode (py_slice (char_encode ''abcdefg'') (2 * (3 - 1)) (2 * (3 - 1) + 3)) = ''efg''"
    by (simp add: char_encode_def char_decode_def py_slice_def slice_index_def del: of_char_eq_iff)
       code_simp
  ultimately have t2: "chunk_number (ds ! 2) = 2 \<and> chunk_text (ds ! 2) = ''efg''"
    by simp
  from u[rule_format, of 1, unfolded n7] l2 have "shared_tokens 7 3 1 1 = 1"
    by simp
  with ds l2 t2 have second: "\<exists>cs. chunk_document default_settings char_encode char_decode ''abcdefg'' (Some 3) (Some 1) None = Some cs \<and>
      length cs = 4 \<and> chunk_number (cs ! 2) = 2 \<and> chunk_text (cs ! 2) = ''efg'' \<and>
      shared_tokens 7 3 1 1 = 1" by blast
  from first second show ?thesis by (rule conjI)
qed

text \<open>
  Claim C3 as stated fails for an overlap above half the size. Four tokens, size 4,
  overlap 3: the chunks are \<open>abcd\<close>, \<open>bcd\<close>, \<open>cd\<close>, \<open>d\<close>; the second and the third,
  neither of them the final chunk, share two tokens, not three.
\<close>

theorem chunk_document_overlap_counterexample:
  "map_option (map chunk_text)
      (chunk_document default_settings char_encode char_decode ''abcd'' (Some 4) (Some 3) None)
     = Some [''abcd'', ''bcd'', ''cd'', ''d'']
   \<and> shared_tokens 4 4 3 1 = 2 \<and> nat 3 \<noteq> (2::nat)"
proof -
  have h: "(0::int) < 3" "(3::int) < 4" by simp_all
  have c: "chunk_count (length (char_encode ''abcd'')) 0 1 = 4"
    by (simp add: chunk_count_def char_encode_def)
  have u: "[0..<4] = [0, 1, 2, 3]" by (simp add: upt_rec)
  have "map_option (map chunk_text)
      (chunk_document default_settings char_encode char_decode ''abcd'' (Some 4) (Some 3) None)
     = Some [''abcd'', ''bcd'', ''cd'', ''d'']"
    unfolding chunk_document_closed[OF h]
    by (simp add: c u) (simp add: char_encode_def make_chunk_def char_decode_def py_slice_def slice_index_def, code_simp)
  moreover have "shared_tokens 4 4 3 1 = 2"
    by (simp add: shared_tokens_def span_lo_def span_hi_def slice_index_def)
  ultimately show ?thesis by simp
qed

section \<open>Classifier: parsing the model response\<close>

lemma parse_complexity_cases:
  "if in_strings v COMPLEXITY_LEVELS then v = JStr (parse_complexity v)
   else parse_complexity v = ''structured''"
  by (cases v) (simp_all add: parse_complexity_def)

lemma parse_document_type_cases:
  "if in_strings v DOCUMENT_TYPES then v = JStr (parse_document_type v)
   else parse_document_type v = ''Other''"
  by (cases v) (simp_all add: parse_document_type_def)

lemma parse_complexity_in: "parse_complexity v \<in> set COMPLEXITY_LEVELS"
  by (cases v) (auto simp: parse_complexity_def COMPLEXITY_LEVELS_def)

lemma parse_document_type_in: "parse_document_type v \<in> set DOCUMENT_TYPES"
  by (cases v) (auto simp: parse_document_type_def DOCUMENT_TYPES_def)

lemma parse_confidence_num:
  assumes "num_of v = Some x"
  shows "\<exists>w y. parse_confidence v = Inr w \<and> num_of w = Some y \<and> y = max 0 (min 1 x) \<and> 0 \<le> y \<and> y \<le> 1
          \<and> (0 \<le> x \<and> x \<le> 1 \<longrightarrow> w = v)"
  using assms by (auto simp: parse_confidence_def)

lemma missing_empty_iff:
  "(filter (\<lambda>f. response f = None) required_fields = []) =
   (\<exists>c d r conf. response ''complexity'' = Some c \<and> response ''document_type'' = Some d \<and>
      response ''requires_deep_analysis'' = Some r \<and> response ''confidence'' = Some conf)"
  by (auto simp: required_fields_def)

text \<open>
  Claim C6, as amended. When one of the four required fields is absent the parser fails
  with a \<open>ValueError\<close> that lists exactly the absent fields, in the order of the required
  list. When all four are present and the confidence is a number, it returns: the
  complexity is the response's when that is in the vocabulary and \<open>structured\<close> otherwise,
  the document type is the response's when in the vocabulary and \<open>Other\<close> otherwise, and
  the confidence is the response's clamped into \<open>[0, 1]\<close>. When the confidence is not a
  number the range test raises \<open>TypeError\<close>.
\<close>

theorem parse_classification_total_on_numbers:
  "(filter (\<lambda>f. response f = None) required_fields \<noteq> [] \<longrightarrow>
      parse_classification response =
        Inl (ValueError (filter (\<lambda>f. response f = None) required_fields))) \<and>
   (filter (\<lambda>f. response f = None) required_fields = [] \<longrightarrow>
      (\<forall>conf x. response ''confidence'' = Some conf \<longrightarrow> num_of conf = Some x \<longrightarrow>
        (\<exists>r y. parse_classification response = Inr r \<and>
           complexity r \<in> set COMPLEXITY_LEVELS \<and>
           (\<forall>c. response ''complexity'' = Some c \<longrightarrow>
               (if in_strings c COMPLEXITY_LEVELS then c = JStr (complexity r)
                else complexity r = ''structured'')) \<and>
           document_type r \<in> set DOCUMENT_TYPES \<and>
           (\<forall>d. response ''document_type'' = Some d \<longrightarrow>
               (if in_strings d DOCUMENT_TYPES then d = JStr (document_type r)
                else document_type r = ''Other'')) \<and>
           num_of (confidence r) = Some y \<and> y = max 0 (min 1 x) \<and> 0 \<le> y \<and> y \<le> 1)) \<and>
      (\<forall>conf. response ''confidence'' = Some conf \<longrightarrow> num_of conf = None \<longrightarrow>
         parse_classification response = Inl TypeError))"
proof (intro conjI impI allI)
  assume "filter (\<lambda>f. response f = None) required_fields \<noteq> []"
  then show "parse_classification response =
        Inl (ValueError (filter (\<lambda>f. response f = None) required_fields))"
    by (simp add: parse_classification_def Let_def)
next
  fix conf x
  assume m: "filter (\<lambda>f. response f = None) required_fields = []"
     and c: "response ''confidence'' = Some conf" and n: "num_of conf = Some x"
  from m obtain c0 d0 r0 where f: "response ''complexity'' = Some c0"
     "response ''document_type'' = Some d0" "response ''requires_deep_analysis'' = Some r0"
    unfolding missing_empty_iff by blast
  from parse_confidence_num[OF n] obtain w y where
    w: "parse_confidence conf = Inr w" "num_of w = Some y" "y = max 0 (min 1 x)" "0 \<le> y" "y \<le> 1"
    by blast
  have "parse_classification response =
      Inr \<lparr> complexity = parse_complexity c0, document_type = parse_document_type d0,
            requires_deep_analysis = r0, confidence = w,
            reasoning = (case response ''reasoning'' of None \<Rightarrow> JStr ''No reasoning provided'' | Some t \<Rightarrow> t),
            raw_response = response \<rparr>"
    using m f c w(1) by (simp add: parse_classification_def)
  then show "\<exists>r y. parse_classification response = Inr r \<and>
           complexity r \<in> set COMPLEXITY_LEVELS \<and>
           (\<forall>c. response ''complexity'' = Some c \<longrightarrow>
               (if in_strings c COMPLEXITY_LEVELS then c = JStr (complexity r)
                else complexity r = ''structured'')) \<and>
           document_type r \<in> set DOCUMENT_TYPES \<and>
           (\<forall>d. response ''document_type'' = Some d \<longrightarrow>
               (if in_strings d DOCUMENT_TYPES then d = JStr (document_type r)
                else document_type r = ''Other'')) \<and>
           num_of (confidence r) = Some y \<and> y = max 0 (min 1 x) \<and> 0 \<le> y \<and> y \<le> 1"
    using f w parse_complexity_in[of c0] parse_document_type_in[of d0]
      parse_complexity_cases[of c0] parse_document_type_cases[of d0]
    by simp
next
  fix conf
  assume m: "filter (\<lambda>f. response f = None) required_fields = []"
     and c: "response ''confidence'' = Some conf" and n: "num_of conf = None"
  from m obtain c0 d0 r0 where f: "response ''complexity'' = Some c0"
     "response ''document_type'' = Some d0" "response ''requires_deep_analysis'' = Some r0"
    unfolding missing_empty_iff by blast
  show "parse_classification response = Inl TypeError"
    using m f c n by (simp add: parse_classification_def parse_confidence_def)
qed

text \<open>The theorem at a response with complexity \<open>medium\<close> and confidence 1.5.\<close>

theorem parse_classification_total_on_numbers_witness:
  "\<exists>r. parse_classification response_out_of_range = Inr r \<and>
       complexity r = ''structured'' \<and> document_type r = ''Memo'' \<and>
       num_of (confidence r) = Some 1"
proof -
  have m: "filter (\<lambda>f. response_out_of_range f = None) required_fields = []"
    by (simp add: response_out_of_range_def required_fields_def)
  have c: "response_out_of_range ''confidence'' = Some (JFloat (3 / 2))"
    by (simp add: response_out_of_range_def)
  have n: "num_of (JFloat (3 / 2)) = Some (3 / 2)" by simp
  from parse_classification_total_on_numbers[of response_out_of_range, THEN conjunct2, rule_format, OF m]
  have "\<forall>conf x. response_out_of_range ''confidence'' = Some conf \<longrightarrow> num_of conf = Some x \<longrightarrow>
        (\<exists>r y. parse_classification response_out_of_range = Inr r \<and>
           complexity r \<in> set COMPLEXITY_LEVELS \<and>
           (\<forall>c. response_out_of_range ''complexity'' = Some c \<longrightarrow>
               (if in_strings c COMPLEXITY_LEVELS then c = JStr (complexity r)
                else complexity r = ''structured'')) \<and>
           document_type r \<in> set DOCUMENT_TYPES \<and>
           (\<forall>d. response_out_of_range ''document_type'' = Some d \<longrightarrow>
               (if in_strings d DOCUMENT_TYPES then d = JStr (document_type r)
                else document_type r = ''Other'')) \<and>
           num_of (confidence r) = Some y \<and> y = max 0 (min 1 x) \<and> 0 \<le> y \<and> y \<le> 1)"
    by blast
  from this[rule_format, OF c n] obtain r y where
    r: "parse_classification response_out_of_range = Inr r"
    and cx: "\<forall>c. response_out_of_range ''complexity'' = Some c \<longrightarrow>
               (if in_strings c COMPLEXITY_LEVELS then c = JStr (complexity r)
                else complexity r = ''structured'')"
    and dx: "\<forall>d. response_out_of_range ''document_type'' = Some d \<longrightarrow>
               (if in_strings d DOCUMENT_TYPES then d = JStr (document_type r)
                else document_type r = ''Other'')"
    and y: "num_of (confidence r) = Some y" "y = max 0 (min 1 (3 / 2))"
    by blast
  from cx[rule_format, of "JStr ''medium''"] have "complexity r = ''structured''"
    by (simp add: response_out_of_range_def COMPLEXITY_LEVELS_def)
  moreover from dx[rule_format, of "JStr ''Memo''"] have "document_type r = ''Memo''"
    by (simp add: response_out_of_range_def DOCUMENT_TYPES_def)
  moreover from y have "num_of (confidence r) = Some 1" by simp
  ultimately show ?thesis using r by blast
qed

text \<open>
  Claim C6 as stated says that parsing never fails once the four fields are present. A
  response whose confidence is the string \<open>high\<close> has all four fields and makes the parser
  raise.
\<close>

theorem parse_classification_counterexample:
  "filter (\<lambda>f. response_text_confidence f = None) required_fields = [] \<and>
   parse_classification response_text_confidence = Inl TypeError"
  by (simp add: response_text_confidence_def required_fields_def parse_classification_def
        parse_confidence_def)

section \<open>Document metadata extractor: post-processing\<close>

lemma set_default_apply:
  "set_default k d m k' = (if k' = k \<and> m k = None then Some d else m k')"
  by (simp add: set_default_def)

lemma ensure_list_apply:
  "ensure_list k m k' =
     (if k' = k then (case m k of Some v \<Rightarrow> if is_list v then Some v else Some (JList [v]) | None \<Rightarrow> None)
      else m k')"
  by (simp add: ensure_list_def split: option.splits)

lemma drop_null_empty_Some:
  "drop_null_empty m k = Some v \<Longrightarrow> m k = Some v \<and> v \<noteq> JNull \<and> v \<noteq> JStr [] \<and> v \<noteq> JList []"
  by (simp add: drop_null_empty_def split: option.splits if_splits)

lemma drop_null_empty_keep:
  "m k = Some v \<Longrightarrow> v \<noteq> JNull \<Longrightarrow> v \<noteq> JStr [] \<Longrightarrow> v \<noteq> JList [] \<Longrightarrow> drop_null_empty m k = Some v"
  by (simp add: drop_null_empty_def)

lemma drop_null_empty_None: "m k = None \<Longrightarrow> drop_null_empty m k = None"
  by (simp add: drop_null_empty_def)

lemma post_process_document_type:
  assumes "document_type c \<noteq> []"
  shows "post_process_metadata m c ''document_type'' = Some (JStr (document_type c))"
proof -
  have "drop_null_empty mm ''document_type'' = Some (JStr (document_type c))"
    if "mm ''document_type'' = Some (JStr (document_type c))" for mm
    using that assms by (simp add: drop_null_empty_keep)
  then show ?thesis
    by (simp add: post_process_metadata_def Let_def set_default_apply ensure_list_apply)
qed


lemma post_process_topics:
  assumes "post_process_metadata m c ''topics'' = Some v"
  shows "is_list v"
proof -
  define m2 where "m2 = (if m ''document_type'' = None
                then m(''document_type'' \<mapsto> JStr (document_type c))
                else if m ''document_type'' \<noteq> Some (JStr (document_type c))
                then m(''document_type'' \<mapsto> JStr (document_type c))
                else m)(''complexity'' \<mapsto> JStr (complexity c),
                  ''requires_deep_analysis'' \<mapsto> requires_deep_analysis c)"
  from assms have "drop_null_empty (ensure_list ''intended_audience'' (ensure_list ''topics'' m2)) ''topics'' = Some v"
    unfolding post_process_metadata_def Let_def m2_def[symmetric]
    by (simp add: set_default_apply)
  then have "ensure_list ''topics'' m2 ''topics'' = Some v"
    by (auto dest!: drop_null_empty_Some simp: ensure_list_apply[of "''intended_audience''"])
  then show ?thesis
    by (auto simp: ensure_list_apply split: option.splits if_splits)
qed

lemma post_process_intended_audience:
  assumes "post_process_metadata m c ''intended_audience'' = Some v"
  shows "is_list v"
proof -
  define m3 where "m3 = ensure_list ''topics'' ((if m ''document_type'' = None
                then m(''document_type'' \<mapsto> JStr (document_type c))
                else if m ''document_type'' \<noteq> Some (JStr (document_type c))
                then m(''document_type'' \<mapsto> JStr (document_type c))
                else m)(''complexity'' \<mapsto> JStr (complexity c),
                  ''requires_deep_analysis'' \<mapsto> requires_deep_analysis c))"
  from assms have "drop_null_empty (ensure_list ''intended_audience'' m3) ''intended_audience'' = Some v"
    unfolding post_process_metadata_def Let_def m3_def[symmetric]
    by (simp add: set_default_apply)
  then have "ensure_list ''intended_audience'' m3 ''intended_audience'' = Some v"
    by (auto dest!: drop_null_empty_Some)
  then show ?thesis
    by (auto simp: ensure_list_apply split: option.splits if_splits)
qed

lemma set_default_clean:
  assumes "set_default k d m k' = Some v" "d \<noteq> JNull" "d \<noteq> JStr []" "d \<noteq> JList []"
      and "\<And>w. m k' = Some w \<Longrightarrow> w \<noteq> JNull \<and> w \<noteq> JStr [] \<and> w \<noteq> JList []"
  shows "v \<noteq> JNull \<and> v \<noteq> JStr [] \<and> v \<noteq> JList []"
  using assms by (auto simp: set_default_apply split: if_splits)

lemma post_process_clean:
  assumes "post_process_metadata m c k = Some v"
  shows "v \<noteq> JNull \<and> v \<noteq> JStr [] \<and> v \<noteq> JList []"
  using assms unfolding post_process_metadata_def Let_def
  by (elim set_default_clean) (simp_all, auto dest!: drop_null_empty_Some)

lemma post_process_defaults:
  "m ''requires_acknowledgment'' = None \<Longrightarrow>
     post_process_metadata m c ''requires_acknowledgment'' = Some (JBool False)"
  "m ''compliance_related'' = None \<Longrightarrow>
     post_process_metadata m c ''compliance_related'' = Some (JBool False)"
  "m ''geographic_scope'' = None \<Longrightarrow>
     post_process_metadata m c ''geographic_scope'' = Some (JList [JStr ''global''])"
  by (simp_all add: post_process_metadata_def Let_def set_default_apply ensure_list_apply
        drop_null_empty_None)

lemma post_process_defaults_present:
  "post_process_metadata m c ''requires_acknowledgment'' \<noteq> None"
  "post_process_metadata m c ''compliance_related'' \<noteq> None"
  "post_process_metadata m c ''geographic_scope'' \<noteq> None"
  by (simp_all add: post_process_metadata_def Let_def set_default_apply)


lemma DOCUMENT_TYPES_nonempty: "d \<in> set DOCUMENT_TYPES \<Longrightarrow> d \<noteq> []"
  by (auto simp: DOCUMENT_TYPES_def)

lemma drop_null_empty_drop:
  "m k = Some v \<Longrightarrow> v = JNull \<or> v = JStr [] \<or> v = JList [] \<Longrightarrow> drop_null_empty m k = None"
  by (auto simp: drop_null_empty_def)

lemma post_process_topics_scalar:
  assumes "m ''topics'' = Some v" "\<not> is_list v"
  shows "post_process_metadata m c ''topics'' = Some (JList [v])"
proof -
  have "drop_null_empty mm ''topics'' = Some (JList [v])" if "mm ''topics'' = Some (JList [v])" for mm
    using that by (simp add: drop_null_empty_keep)
  then show ?thesis using assms
    by (simp add: post_process_metadata_def Let_def set_default_apply ensure_list_apply)
qed

lemma post_process_topics_list:
  assumes "m ''topics'' = Some v" "is_list v" "v \<noteq> JList []"
  shows "post_process_metadata m c ''topics'' = Some v"
proof -
  have n: "v \<noteq> JNull" "v \<noteq> JStr []" using assms(2) by auto
  have "drop_null_empty mm ''topics'' = Some v" if "mm ''topics'' = Some v" for mm
    using that n assms(3) by (simp add: drop_null_empty_keep)
  then show ?thesis using assms
    by (simp add: post_process_metadata_def Let_def set_default_apply ensure_list_apply)
qed

lemma post_process_audience_scalar:
  assumes "m ''intended_audience'' = Some v" "\<not> is_list v"
  shows "post_process_metadata m c ''intended_audience'' = Some (JList [v])"
proof -
  have "drop_null_empty mm ''intended_audience'' = Some (JList [v])"
    if "mm ''intended_audience'' = Some (JList [v])" for mm
    using that by (simp add: drop_null_empty_keep)
  then show ?thesis using assms
    by (simp add: post_process_metadata_def Let_def set_default_apply ensure_list_apply)
qed

lemma post_process_audience_list:
  assumes "m ''intended_audience'' = Some v" "is_list v" "v \<noteq> JList []"
  shows "post_process_metadata m c ''intended_audience'' = Some v"
proof -
  have n: "v \<noteq> JNull" "v \<noteq> JStr []" using assms(2) by auto
  have "drop_null_empty mm ''intended_audience'' = Some v" if "mm ''intended_audience'' = Some v" for mm
    using that n assms(3) by (simp add: drop_null_empty_keep)
  then show ?thesis using assms
    by (simp add: post_process_metadata_def Let_def set_default_apply ensure_list_apply)
qed

lemma post_process_absent:
  "m ''topics'' = None \<Longrightarrow> post_process_metadata m c ''topics'' = None"
  "m ''intended_audience'' = None \<Longrightarrow> post_process_metadata m c ''intended_audience'' = None"
  by (simp_all add: post_process_metadata_def Let_def set_default_apply ensure_list_apply
        drop_null_empty_None)

lemma set_default_keep: "m k = Some v \<Longrightarrow> set_default k' d m k = Some v"
  by (auto simp: set_default_def)

lemma post_process_keeps:
  assumes "k \<noteq> ''document_type''" "k \<noteq> ''complexity''" "k \<noteq> ''requires_deep_analysis''"
    "k \<noteq> ''topics''" "k \<noteq> ''intended_audience''"
    "m k = Some v" "v \<noteq> JNull" "v \<noteq> JStr []" "v \<noteq> JList []"
  shows "post_process_metadata m c k = Some v"
proof -
  define m4 where "m4 = ensure_list ''intended_audience'' (ensure_list ''topics''
     ((if m ''document_type'' = None
                then m(''document_type'' \<mapsto> JStr (document_type c))
                else if m ''document_type'' \<noteq> Some (JStr (document_type c))
                then m(''document_type'' \<mapsto> JStr (document_type c))
                else m)(''complexity'' \<mapsto> JStr (complexity c),
                  ''requires_deep_analysis'' \<mapsto> requires_deep_analysis c)))"
  have "m4 k = Some v" using assms(1-6) by (simp add: m4_def ensure_list_apply)
  then have "drop_null_empty m4 k = Some v" using assms(7-9) by (rule drop_null_empty_keep)
  then have "set_default ''geographic_scope'' (JList [JStr ''global''])
           (set_default ''compliance_related'' (JBool False)
             (set_default ''requires_acknowledgment'' (JBool False) (drop_null_empty m4))) k = Some v"
    by (intro set_default_keep)
  then show ?thesis unfolding post_process_metadata_def Let_def m4_def .
qed

lemma post_process_classification_fields:
  "complexity c \<noteq> [] \<Longrightarrow> post_process_metadata m c ''complexity'' = Some (JStr (complexity c))"
proof -
  assume a: "complexity c \<noteq> []"
  have "drop_null_empty mm ''complexity'' = Some (JStr (complexity c))"
    if "mm ''complexity'' = Some (JStr (complexity c))" for mm
    using that a by (simp add: drop_null_empty_keep)
  then show ?thesis
    by (simp add: post_process_metadata_def Let_def set_default_apply ensure_list_apply)
qed

text \<open>
  Claim C5. For every metadata mapping returned by the model and every classification
  (its document type one of the vocabulary, as the classifier produces it), the
  post-processed metadata has the classification's document type; a \<open>topics\<close> or
  \<open>intended_audience\<close> value that is not a list is wrapped into a one-element list, a
  non-empty list is kept, and whatever is stored under the two keys is a list; no key maps
  to \<open>None\<close>, the empty string or the empty list, and every other value the model gave
  is kept; and \<open>requires_acknowledgment\<close>, \<open>compliance_related\<close> and
  \<open>geographic_scope\<close> are present, with the defaults \<open>False\<close>, \<open>False\<close> and
  \<open>["global"]\<close> whenever the model omitted them.
\<close>

theorem post_process_metadata_consistent:
  assumes "document_type c \<in> set DOCUMENT_TYPES"
  shows "post_process_metadata m c ''document_type'' = Some (JStr (document_type c)) \<and>
    (\<forall>v. m ''topics'' = Some v \<longrightarrow> \<not> is_list v \<longrightarrow>
       post_process_metadata m c ''topics'' = Some (JList [v])) \<and>
    (\<forall>v. m ''topics'' = Some v \<longrightarrow> is_list v \<longrightarrow> v \<noteq> JList [] \<longrightarrow>
       post_process_metadata m c ''topics'' = Some v) \<and>
    (\<forall>v. post_process_metadata m c ''topics'' = Some v \<longrightarrow> is_list v) \<and>
    (\<forall>v. m ''intended_audience'' = Some v \<longrightarrow> \<not> is_list v \<longrightarrow>
       post_process_metadata m c ''intended_audience'' = Some (JList [v])) \<and>
    (\<forall>v. m ''intended_audience'' = Some v \<longrightarrow> is_list v \<longrightarrow> v \<noteq> JList [] \<longrightarrow>
       post_process_metadata m c ''intended_audience'' = Some v) \<and>
    (\<forall>v. post_process_metadata m c ''intended_audience'' = Some v \<longrightarrow> is_list v) \<and>
    (\<forall>k v. post_process_metadata m c k = Some v \<longrightarrow> v \<noteq> JNull \<and> v \<noteq> JStr [] \<and> v \<noteq> JList []) \<and>
    (\<forall>k v. k \<noteq> ''document_type'' \<longrightarrow> k \<noteq> ''complexity'' \<longrightarrow> k \<noteq> ''requires_deep_analysis'' \<longrightarrow>
       k \<noteq> ''topics'' \<longrightarrow> k \<noteq> ''intended_audience'' \<longrightarrow>
       m k = Some v \<longrightarrow> v \<noteq> JNull \<longrightarrow> v \<noteq> JStr [] \<longrightarrow> v \<noteq> JList [] \<longrightarrow>
       post_process_metadata m c k = Some v) \<and>
    (m ''requires_acknowledgment'' = None \<longrightarrow>
       post_process_metadata m c ''requires_acknowledgment'' = Some (JBool False)) \<and>
    (m ''compliance_related'' = None \<longrightarrow>
       post_process_metadata m c ''compliance_related'' = Some (JBool False)) \<and>
    (m ''geographic_scope'' = None \<longrightarrow>
       post_process_metadata m c ''geographic_scope'' = Some (JList [JStr ''global''])) \<and>
    post_process_metadata m c ''requires_acknowledgment'' \<noteq> None \<and>
    post_process_metadata m c ''compliance_related'' \<noteq> None \<and>
    post_process_metadata m c ''geographic_scope'' \<noteq> None"
proof -
  have dt: "post_process_metadata m c ''document_type'' = Some (JStr (document_type c))"
    by (rule post_process_document_type[OF DOCUMENT_TYPES_nonempty[OF assms]])
  have ts: "\<forall>v. m ''topics'' = Some v \<longrightarrow> \<not> is_list v \<longrightarrow>
       post_process_metadata m c ''topics'' = Some (JList [v])"
    by (intro allI impI) (rule post_process_topics_scalar)
  have tl: "\<forall>v. m ''topics'' = Some v \<longrightarrow> is_list v \<longrightarrow> v \<noteq> JList [] \<longrightarrow>
       post_process_metadata m c ''topics'' = Some v"
    by (intro allI impI) (rule post_process_topics_list)
  have tt: "\<forall>v. post_process_metadata m c ''topics'' = Some v \<longrightarrow> is_list v"
    by (intro allI impI) (rule post_process_topics)
  have as: "\<forall>v. m ''intended_audience'' = Some v \<longrightarrow> \<not> is_list v \<longrightarrow>
       post_process_metadata m c ''intended_audience'' = Some (JList [v])"
    by (intro allI impI) (rule post_process_audience_scalar)
  have al: "\<forall>v. m ''intended_audience'' = Some v \<longrightarrow> is_list v \<longrightarrow> v \<noteq> JList [] \<longrightarrow>
       post_process_metadata m c ''intended_audience'' = Some v"
    by (intro allI impI) (rule post_process_audience_list)
  have at: "\<forall>v. post_process_metadata m c ''intended_audience'' = Some v \<longrightarrow> is_list v"
    by (intro allI impI) (rule post_process_intended_audience)
  have clean: "\<forall>k v. post_process_metadata m c k = Some v \<longrightarrow> v \<noteq> JNull \<and> v \<noteq> JStr [] \<and> v \<noteq> JList []"
    by (intro allI impI) (rule post_process_clean)
  have keep: "\<forall>k v. k \<noteq> ''document_type'' \<longrightarrow> k \<noteq> ''complexity'' \<longrightarrow> k \<noteq> ''requires_deep_analysis'' \<longrightarrow>
       k \<noteq> ''topics'' \<longrightarrow> k \<noteq> ''intended_audience'' \<longrightarrow>
       m k = Some v \<longrightarrow> v \<noteq> JNull \<longrightarrow> v \<noteq> JStr [] \<longrightarrow> v \<noteq> JList [] \<longrightarrow>
       post_process_metadata m c k = Some v"
    by (intro allI impI) (rule post_process_keeps)
  have d1: "m ''requires_acknowledgment'' = None \<longrightarrow>
       post_process_metadata m c ''requires_acknowledgment'' = Some (JBool False)"
    by (intro impI) (rule post_process_defaults(1))
  have d2: "m ''compliance_related'' = None \<longrightarrow>
       post_process_metadata m c ''compliance_related'' = Some (JBool False)"
    by (intro impI) (rule post_process_defaults(2))
  have d3: "m ''geographic_scope'' = None \<longrightarrow>
       post_process_metadata m c ''geographic_scope'' = Some (JList [JStr ''global''])"
    by (intro impI) (rule post_process_defaults(3))
  show ?thesis
    by (intro conjI; fact dt ts tl tt as al at clean keep d1 d2 d3 post_process_defaults_present)
qed

text \<open>
  The theorem at a model answer that disagrees on the document type, gives one topic as a
  scalar, a null audience, an empty summary and its own value for \<open>compliance_related\<close>.
\<close>

theorem post_process_metadata_consistent_witness:
  "post_process_metadata sample_raw_metadata sample_classification ''document_type''
      = Some (JStr ''HR Policy'') \<and>
   post_process_metadata sample_raw_metadata sample_classification ''topics''
      = Some (JList [JStr ''remote_work'']) \<and>
   post_process_metadata sample_raw_metadata sample_classification ''intended_audience''
      = Some (JList [JNull]) \<and>
   post_process_metadata sample_raw_metadata sample_classification ''document_summary'' = None \<and>
   post_process_metadata sample_raw_metadata sample_classification ''requires_acknowledgment''
      = Some (JBool False) \<and>
   post_process_metadata sample_raw_metadata sample_classification ''compliance_related''
      = Some (JBool True) \<and>
   post_process_metadata sample_raw_metadata sample_classification ''geographic_scope''
      = Some (JList [JStr ''global''])"
proof -
  have h: "document_type sample_classification \<in> set DOCUMENT_TYPES"
    by (simp add: sample_classification_def DOCUMENT_TYPES_def)
  have a: "sample_raw_metadata ''requires_acknowledgment'' = None"
          "sample_raw_metadata ''geographic_scope'' = None"
          "sample_raw_metadata ''topics'' = Some (JStr ''remote_work'')"
          "sample_raw_metadata ''intended_audience'' = Some JNull"
          "sample_raw_metadata ''compliance_related'' = Some (JBool True)"
          "sample_raw_metadata ''document_summary'' = Some (JStr [])"
    by (simp_all add: sample_raw_metadata_def)
  note t = post_process_metadata_consistent[OF h, of sample_raw_metadata]
  note t1 = t[THEN conjunct1]
  note t2 = t[THEN conjunct2, THEN conjunct1, rule_format]
  note t5 = t[THEN conjunct2, THEN conjunct2, THEN conjunct2, THEN conjunct2, THEN conjunct1, rule_format]
  note r8 = t[THEN conjunct2, THEN conjunct2, THEN conjunct2, THEN conjunct2, THEN conjunct2,
              THEN conjunct2, THEN conjunct2]
  note t8 = r8[THEN conjunct1, rule_format]
  note t9 = r8[THEN conjunct2, THEN conjunct1, rule_format]
  note t10 = r8[THEN conjunct2, THEN conjunct2, THEN conjunct1, rule_format]
  note t12 = r8[THEN conjunct2, THEN conjunct2, THEN conjunct2, THEN conjunct2, THEN conjunct1, rule_format]
  from t1 have 1: "post_process_metadata sample_raw_metadata sample_classification ''document_type''
      = Some (JStr ''HR Policy'')"
    by (simp add: sample_classification_def)
  have 2: "post_process_metadata sample_raw_metadata sample_classification ''requires_acknowledgment''
      = Some (JBool False)" by (rule t10[OF a(1)])
  have 3: "post_process_metadata sample_raw_metadata sample_classification ''geographic_scope''
      = Some (JList [JStr ''global''])" by (rule t12[OF a(2)])
  have 4: "post_process_metadata sample_raw_metadata sample_classification ''topics''
      = Some (JList [JStr ''remote_work''])" by (rule t2[OF a(3)]) simp
  have 5: "post_process_metadata sample_raw_metadata sample_classification ''intended_audience''
      = Some (JList [JNull])" by (rule t5[OF a(4)]) simp
  have 6: "post_process_metadata sample_raw_metadata sample_classification ''compliance_related''
      = Some (JBool True)" by (rule t9[OF _ _ _ _ _ a(5)]) simp_all
  have 7: "post_process_metadata sample_raw_metadata sample_classification ''document_summary'' = None"
  proof (cases "post_process_metadata sample_raw_metadata sample_classification ''document_summary''")
    case None then show ?thesis .
  next
    case (Some v)
    from t8[OF Some] have n: "v \<noteq> JStr []" by simp
    have "post_process_metadata sample_raw_metadata sample_classification ''document_summary'' = None
     \<or> post_process_metadata sample_raw_metadata sample_classification ''document_summary'' = Some (JStr [])"
      by (simp add: post_process_metadata_def Let_def set_default_apply ensure_list_apply
          sample_raw_metadata_def drop_null_empty_def)
    with Some n show ?thesis by simp
  qed
  from 1 2 3 4 5 6 7 show ?thesis by (intro conjI)
qed

section \<open>Metadata validator: the fixing pass is idempotent\<close>

lemma fix_string_field_same: "fix_string_field f m f = strip_value (m f)"
  by (auto simp: fix_string_field_def strip_value_def split: option.splits json.splits)

lemma fix_string_field_other: "k \<noteq> f \<Longrightarrow> fix_string_field f m k = m k"
  by (auto simp: fix_string_field_def split: option.splits json.splits)

lemma fix_enum_field_same: "fix_enum_field f m f = lower_value (m f)"
  by (auto simp: fix_enum_field_def lower_value_def split: option.splits json.splits)

lemma fix_enum_field_other: "k \<noteq> f \<Longrightarrow> fix_enum_field f m k = m k"
  by (auto simp: fix_enum_field_def split: option.splits json.splits)

lemma fix_array_field_same: "fix_array_field f m f = array_value (m f)"
  by (auto simp: fix_array_field_def array_value_def Let_def split: option.splits)

lemma fix_array_field_other: "k \<noteq> f \<Longrightarrow> fix_array_field f m k = m k"
  by (auto simp: fix_array_field_def Let_def split: option.splits)

lemma drop_empty_field_same: "drop_empty_field f m f = drop_falsy_value (m f)"
  by (auto simp: drop_empty_field_def drop_falsy_value_def split: option.splits)

lemma drop_empty_field_other: "k \<noteq> f \<Longrightarrow> drop_empty_field f m k = m k"
  by (auto simp: drop_empty_field_def split: option.splits)

lemmas fix_field_simps =
  fix_string_field_same fix_string_field_other fix_enum_field_same fix_enum_field_other
  fix_array_field_same fix_array_field_other drop_empty_field_same drop_empty_field_other

lemma fix_minor_issues_unfold:
  "fix_minor_issues m =
     drop_empty_field ''expiration_date'' (drop_empty_field ''geographic_scope''
       (drop_empty_field ''key_entities''
         (fix_array_field ''key_entities'' (fix_array_field ''intended_audience''
           (fix_array_field ''topics''
             (fix_enum_field ''authority_level''
               (fix_string_field ''document_summary'' (fix_string_field ''version''
                 (fix_string_field ''authority_level'' (fix_string_field ''department''
                   (fix_string_field ''document_type'' m)))))))))))"
  by (simp add: fix_minor_issues_def string_fields_def enum_fields_def array_fields_def
        optional_empty_fields_def)

lemma fix_value_keys:
  "fix_value ''document_type'' v = strip_value v"
  "fix_value ''department'' v = strip_value v"
  "fix_value ''version'' v = strip_value v"
  "fix_value ''document_summary'' v = strip_value v"
  "fix_value ''authority_level'' v = lower_value (strip_value v)"
  "fix_value ''topics'' v = array_value v"
  "fix_value ''intended_audience'' v = array_value v"
  "fix_value ''key_entities'' v = drop_falsy_value (array_value v)"
  "fix_value ''geographic_scope'' v = drop_falsy_value v"
  "fix_value ''expiration_date'' v = drop_falsy_value v"
  by (simp_all add: fix_value_def string_fields_def enum_fields_def array_fields_def
        optional_empty_fields_def)

lemma fix_value_other:
  "k \<notin> set string_fields \<Longrightarrow> k \<notin> set array_fields \<Longrightarrow> k \<notin> set optional_empty_fields \<Longrightarrow>
   fix_value k v = v"
  by (simp add: fix_value_def enum_fields_def string_fields_def)

lemma fix_minor_issues_apply: "fix_minor_issues m k = fix_value k (m k)"
proof -
  consider "k = ''document_type''" | "k = ''department''" | "k = ''version''"
    | "k = ''document_summary''" | "k = ''authority_level''" | "k = ''topics''"
    | "k = ''intended_audience''" | "k = ''key_entities''" | "k = ''geographic_scope''"
    | "k = ''expiration_date''"
    | "k \<notin> set string_fields \<and> k \<notin> set array_fields \<and> k \<notin> set optional_empty_fields"
    by (auto simp: string_fields_def array_fields_def optional_empty_fields_def)
  then show ?thesis
  proof cases
    case 11
    then have "fix_minor_issues m k = m k"
      unfolding fix_minor_issues_unfold
      by (simp add: fix_field_simps string_fields_def array_fields_def optional_empty_fields_def)
    then show ?thesis using 11 by (simp add: fix_value_other)
  qed (simp_all add: fix_minor_issues_unfold fix_field_simps fix_value_keys)
qed

lemma dropWhile_hd: "dropWhile P xs = [] \<or> \<not> P (hd (dropWhile P xs))"
  using hd_dropWhile[of P xs] by blast

lemma dropWhile_id: "xs \<noteq> [] \<Longrightarrow> \<not> P (hd xs) \<Longrightarrow> dropWhile P xs = xs"
  by (cases xs) auto

lemma strip_fixed:
  assumes "s = [] \<or> (\<not> is_space (hd s) \<and> \<not> is_space (last s))"
  shows "strip s = s"
proof (cases "s = []")
  case True then show ?thesis by (simp add: strip_def)
next
  case False
  with assms have h: "\<not> is_space (hd s)" and l: "\<not> is_space (last s)" by auto
  have 1: "dropWhile is_space s = s" using False h by (rule dropWhile_id)
  have "hd (rev s) = last s" using False by (simp add: hd_rev)
  then have 2: "dropWhile is_space (rev s) = rev s" using False l by (intro dropWhile_id) simp_all
  show ?thesis by (simp add: strip_def 1 2)
qed

lemma strip_props:
  "strip s = [] \<or> (\<not> is_space (hd (strip s)) \<and> \<not> is_space (last (strip s)))"
proof (cases "strip s = []")
  case True then show ?thesis by simp
next
  case False
  define u where "u = dropWhile is_space s"
  define w where "w = dropWhile is_space (rev u)"
  have sw: "strip s = rev w" by (simp add: strip_def u_def w_def)
  with False have wne: "w \<noteq> []" by simp
  have hw: "\<not> is_space (hd w)" using dropWhile_hd[of is_space "rev u"] wne unfolding w_def by blast
  have "rev u = takeWhile is_space (rev u) @ w" by (simp add: w_def)
  then have u: "u = rev w @ rev (takeWhile is_space (rev u))"
    by (metis rev_append rev_rev_ident)
  have une: "u \<noteq> []" using u wne by auto
  have hu: "\<not> is_space (hd u)" using dropWhile_hd[of is_space s] une unfolding u_def by blast
  have "hd u = hd (rev w)" using u wne by (metis hd_append2 rev_is_Nil_conv)
  then have "\<not> is_space (hd (rev w))" using hu by simp
  moreover have "last (rev w) = hd w" using wne by (simp add: last_rev)
  ultimately show ?thesis using hw sw by simp
qed

lemma strip_idem: "strip (strip s) = strip s"
  by (rule strip_fixed) (rule strip_props)

lemma of_char_lower_upper:
  assumes "is_upper c"
  shows "(of_char (char_lower c) :: nat) = of_char c + 32"
proof -
  have "(of_char (char_lower c) :: nat) = (of_char c + 32) mod 256"
    using assms by (simp only: char_lower_def if_True of_char_of)
  moreover have "(of_char c :: nat) + 32 < 256" using assms by (auto simp: is_upper_def Let_def)
  ultimately show ?thesis by simp
qed

lemma lower_not_upper: "\<not> is_upper (char_lower c)"
proof (cases "is_upper c")
  case True
  from of_char_lower_upper[OF True] True show ?thesis
    by (auto simp: is_upper_def Let_def)
next
  case False
  then show ?thesis by (simp add: char_lower_def)
qed

lemma char_lower_idem: "char_lower (char_lower c) = char_lower c"
  using lower_not_upper[of c] by (simp add: char_lower_def[of "char_lower c"])

lemma is_space_lower: "is_space (char_lower c) = is_space c"
proof (cases "is_upper c")
  case True
  from of_char_lower_upper[OF True] True show ?thesis
    by (auto simp: is_space_def is_upper_def Let_def)
next
  case False
  then show ?thesis by (simp add: char_lower_def)
qed

lemma lower_idem: "lower (lower s) = lower s"
  by (simp add: lower_def char_lower_idem)

lemma dropWhile_space_lower: "dropWhile is_space (map char_lower s) = map char_lower (dropWhile is_space s)"
  by (induction s) (simp_all add: is_space_lower)

lemma strip_lower: "strip (lower s) = lower (strip s)"
  by (simp add: strip_def lower_def dropWhile_space_lower rev_map)

lemma strip_value_idem: "strip_value (strip_value v) = strip_value v"
  by (auto simp: strip_value_def strip_idem split: option.splits json.splits)

lemma lower_strip_value_idem:
  "lower_value (strip_value (lower_value (strip_value v))) = lower_value (strip_value v)"
  by (auto simp: strip_value_def lower_value_def strip_lower strip_idem lower_idem
      split: option.splits json.splits)

lemma keep_strip_item: "keep_item x \<Longrightarrow> keep_item (strip_item x)"
  by (cases x) (auto simp: strip_idem)

lemma strip_item_idem: "strip_item (strip_item x) = strip_item x"
  by (cases x) (simp_all add: strip_idem)

lemma clean_items_idem: "clean_items (clean_items xs) = clean_items xs"
proof -
  have "filter keep_item (map strip_item (filter keep_item xs)) = map strip_item (filter keep_item xs)"
    by (rule filter_True) (auto simp: keep_strip_item)
  then show ?thesis by (simp add: clean_items_def strip_item_idem)
qed

lemma array_value_idem: "array_value (array_value v) = array_value v"
  by (cases v) (simp_all add: array_value_def clean_items_idem)

lemma drop_falsy_value_idem: "drop_falsy_value (drop_falsy_value v) = drop_falsy_value v"
  by (auto simp: drop_falsy_value_def split: option.splits)

lemma drop_array_value_idem:
  "drop_falsy_value (array_value (drop_falsy_value (array_value v))) = drop_falsy_value (array_value v)"
proof (cases v)
  case None
  then show ?thesis by (simp add: array_value_def drop_falsy_value_def)
next
  case (Some w)
  define ys where "ys = clean_items (case w of JList ys \<Rightarrow> ys | _ \<Rightarrow> [w])"
  have a: "array_value v = Some (JList ys)" using Some by (simp add: array_value_def ys_def)
  have c: "clean_items ys = ys" by (simp add: ys_def clean_items_idem)
  show ?thesis
  proof (cases "ys = []")
    case True
    then show ?thesis unfolding a by (simp add: drop_falsy_value_def array_value_def)
  next
    case False
    then have "drop_falsy_value (Some (JList ys)) = Some (JList ys)" by (simp add: drop_falsy_value_def)
    moreover have "array_value (Some (JList ys)) = Some (JList ys)" by (simp add: array_value_def c)
    ultimately show ?thesis unfolding a by simp
  qed
qed

lemma fix_value_idem: "fix_value k (fix_value k v) = fix_value k v"
proof -
  consider "k = ''document_type''" | "k = ''department''" | "k = ''version''"
    | "k = ''document_summary''" | "k = ''authority_level''" | "k = ''topics''"
    | "k = ''intended_audience''" | "k = ''key_entities''" | "k = ''geographic_scope''"
    | "k = ''expiration_date''"
    | "k \<notin> set string_fields \<and> k \<notin> set array_fields \<and> k \<notin> set optional_empty_fields"
    by (auto simp: string_fields_def array_fields_def optional_empty_fields_def)
  then show ?thesis
    by cases (simp_all add: fix_value_keys fix_value_other strip_value_idem lower_strip_value_idem
        array_value_idem drop_falsy_value_idem drop_array_value_idem)
qed

text \<open>
  Claim C9. The fixing pass is idempotent: applying \<open>_fix_minor_issues\<close> to its own
  result gives the same mapping as applying it once, for every metadata mapping.
\<close>

theorem fix_minor_issues_idempotent:
  "fix_minor_issues (fix_minor_issues m) = fix_minor_issues m"
proof (rule ext)
  fix k
  show "fix_minor_issues (fix_minor_issues m) k = fix_minor_issues m k"
    by (simp only: fix_minor_issues_apply fix_value_idem)
qed

text \<open>The pass at a mapping with padded strings, a scalar topic and empty optional fields.\<close>

lemma fix_minor_issues_untidy:
  "fix_minor_issues untidy_metadata ''department'' = Some (JStr ''HR'') \<and>
   fix_minor_issues untidy_metadata ''authority_level'' = Some (JStr ''official'') \<and>
   fix_minor_issues untidy_metadata ''topics'' = Some (JList [JStr ''annual_leave'']) \<and>
   fix_minor_issues untidy_metadata ''key_entities'' = None \<and>
   fix_minor_issues untidy_metadata ''expiration_date'' = None"
  by (simp add: fix_minor_issues_apply fix_value_keys untidy_metadata_def strip_value_def
      lower_value_def array_value_def drop_falsy_value_def clean_items_def strip_def lower_def
      is_space_def char_lower_def is_upper_def Let_def, code_simp)

section \<open>Metadata validator: validation and its summary\<close>

lemma fix_minor_issues_empty: "fix_minor_issues Map.empty = Map.empty"
  by (rule ext) (simp add: fix_minor_issues_apply fix_value_def strip_value_def lower_value_def
        array_value_def drop_falsy_value_def)

lemma validate_business_rules_empty:
  "validate_business_rules Map.empty =
     Inr [MissingRequiredField ''document_type'', MissingRequiredField ''department'',
          MissingRequiredField ''authority_level'', MissingRequiredField ''topics'',
          MissingRequiredField ''intended_audience'']"
  by (simp add: validate_business_rules_def bind_exn_def version_errors_def date_errors_def
        summary_errors_def confidence_errors_def date_order_errors_def
        validate_metadata_completeness_def required_metadata_fields_def vocabulary_errors_def
        topics_errors_def audience_errors_def)

lemma bind_exn_Inl:
  "bind_exn r f = Inl e \<Longrightarrow> r = Inl e \<or> (\<exists>v. r = Inr v \<and> f v = Inl e)"
  by (cases r) (simp_all add: bind_exn_def)

lemma version_errors_Inl: "version_errors md = Inl e \<Longrightarrow> e = TypeError"
  by (simp add: version_errors_def split: option.splits json.splits)

lemma date_errors_Inl: "date_errors f md = Inl e \<Longrightarrow> e = TypeError"
  by (simp add: date_errors_def split: option.splits json.splits if_splits)

lemma py_len_Inl: "py_len v = Inl e \<Longrightarrow> e = TypeError"
  by (cases v) simp_all

lemma summary_errors_Inl: "summary_errors md = Inl e \<Longrightarrow> e = TypeError"
  by (auto simp: summary_errors_def dest!: bind_exn_Inl py_len_Inl split: option.splits)

lemma confidence_errors_Inl: "confidence_errors md = Inl e \<Longrightarrow> e = TypeError"
  by (simp add: confidence_errors_def split: option.splits)

lemma py_le_Inl: "py_le a b = Inl e \<Longrightarrow> e = TypeError"
  by (cases a; cases b) (simp_all add: py_le_def split: option.splits)

lemma date_order_errors_Inl: "date_order_errors md = Inl e \<Longrightarrow> e = TypeError"
  by (auto simp: date_order_errors_def dest!: bind_exn_Inl py_le_Inl split: option.splits if_splits)

lemma validate_business_rules_Inl: "validate_business_rules md = Inl e \<Longrightarrow> e = TypeError"
  unfolding validate_business_rules_def
  apply (drule bind_exn_Inl, erule disjE, erule version_errors_Inl, clarify)
  apply (drule bind_exn_Inl, erule disjE, erule date_errors_Inl, clarify)
  apply (drule bind_exn_Inl, erule disjE, erule date_errors_Inl, clarify)
  apply (drule bind_exn_Inl, erule disjE, erule summary_errors_Inl, clarify)
  apply (drule bind_exn_Inl, erule disjE, erule confidence_errors_Inl, clarify)
  apply (drule bind_exn_Inl, erule disjE, erule date_order_errors_Inl, clarify)
  done

lemma validate_lenient_Inl: "validate schema md False fix = Inl e \<Longrightarrow> e = TypeError"
  unfolding validate_def Let_def
  by (drule bind_exn_Inl) (auto dest: validate_business_rules_Inl)

lemma validate_lenient_returns:
  "validate_business_rules (fix_minor_issues md) = Inr es \<Longrightarrow>
   validate schema md False True = Inr (fix_minor_issues md)"
  by (simp add: validate_def Let_def bind_exn_def)

lemma summary_reports_valid:
  assumes "validate_business_rules (fix_minor_issues md) = Inr es"
      and "get_validation_summary schema md = Inr s"
  shows "is_valid s \<and> errors s = ErrorList [] \<and> error_count s = 0"
  using assms(2) validate_lenient_returns[OF assms(1), of schema]
  by (auto simp: get_validation_summary_def Let_def bind_exn_def split: sum.splits)

lemma strip_plain: "strip ''HR Policy'' = ''HR Policy''" "strip ''official'' = ''official''"
  "strip ''annual_leave'' = ''annual_leave''" "strip ''all_employees'' = ''all_employees''"
  by (simp_all add: strip_def is_space_def)

lemma lower_plain: "lower ''official'' = ''official''"
  by (simp add: lower_def char_lower_def is_upper_def)

lemma fix_without_department: "fix_minor_issues metadata_without_department = metadata_without_department"
proof (rule ext)
  fix k
  consider "k = ''document_type''" | "k = ''authority_level''" | "k = ''topics''" | "k = ''intended_audience''"
    | "k = ''department''" | "k = ''version''" | "k = ''document_summary''" | "k = ''key_entities''"
    | "k = ''geographic_scope''" | "k = ''expiration_date''"
    | "k \<notin> set string_fields \<and> k \<notin> set array_fields \<and> k \<notin> set optional_empty_fields"
    by (auto simp: string_fields_def array_fields_def optional_empty_fields_def)
  then show "fix_minor_issues metadata_without_department k = metadata_without_department k"
    by cases (simp_all add: fix_minor_issues_apply fix_value_keys fix_value_other
        metadata_without_department_def strip_value_def lower_value_def array_value_def
        drop_falsy_value_def clean_items_def strip_plain lower_plain)
qed

lemma business_rules_without_department:
  "validate_business_rules metadata_without_department = Inr [MissingRequiredField ''department'']"
  by (simp add: validate_business_rules_def bind_exn_def version_errors_def date_errors_def
        summary_errors_def confidence_errors_def date_order_errors_def
        validate_metadata_completeness_def required_metadata_fields_def vocabulary_errors_def
        topics_errors_def audience_errors_def metadata_without_department_def
        DOCUMENT_TYPES_def AUTHORITY_LEVELS_def INTENDED_AUDIENCES_def)

text \<open>
  Claim C2. For metadata with business-rule errors, \<open>validate\<close> with \<open>strict = False\<close>
  is claimed to return the metadata and \<open>get_validation_summary\<close> to report
  \<open>is_valid = False\<close> with a non-empty error list. The first half holds. The summary,
  however, calls \<open>validate\<close> with \<open>strict = False\<close> itself, so the exception it means to
  catch is never raised: for the mapping without \<open>department\<close>, whose business-rule check
  yields one error, it reports \<open>is_valid = True\<close> and no errors, whatever the schema says.
  (In general: \<open>summary_reports_valid\<close>.)
\<close>

theorem summary_misses_validation_errors:
  "validate_business_rules (fix_minor_issues metadata_without_department) =
     Inr [MissingRequiredField ''department''] \<and>
   validate schema metadata_without_department False True = Inr metadata_without_department \<and>
   get_validation_summary schema metadata_without_department =
     Inr \<lparr> is_valid = True, error_count = 0, errors = ErrorList [],
           is_high_confidence = False, is_low_confidence = True, has_required_fields = False \<rparr>"
proof -
  have b: "validate_business_rules (fix_minor_issues metadata_without_department) =
     Inr [MissingRequiredField ''department'']"
    by (simp only: fix_without_department business_rules_without_department)
  have v: "validate schema metadata_without_department False True = Inr metadata_without_department"
    using validate_lenient_returns[OF b, of schema] by (simp only: fix_without_department)
  have "get_validation_summary schema metadata_without_department =
     Inr \<lparr> is_valid = True, error_count = 0, errors = ErrorList [],
           is_high_confidence = False, is_low_confidence = True, has_required_fields = False \<rparr>"
    unfolding get_validation_summary_def v
    by (simp add: bind_exn_def is_high_confidence_md_def is_low_confidence_md_def
          required_metadata_fields_def metadata_without_department_def)
  with b v show ?thesis by simp
qed

section \<open>Retriever: the store filter\<close>

lemma clause_for_list:
  assumes "xs \<noteq> []"
  shows "clause_for field (JList xs) = Inr (spec_clause field xs)"
proof (cases xs)
  case Nil
  with assms show ?thesis by simp
next
  case (Cons x ys)
  show ?thesis
  proof (cases ys)
    case Nil
    with Cons show ?thesis
      by (simp add: clause_for_def bind_exn_def first_element_def spec_clause_def)
  next
    case (Cons y zs)
    with \<open>xs = x # ys\<close> show ?thesis
      by (simp add: clause_for_def bind_exn_def spec_clause_def)
  qed
qed

lemma field_clauses_lists:
  assumes "\<And>v. map_of kvs field = Some v \<Longrightarrow> is_list v"
  shows "field_clauses (JObj kvs) field =
         Inr (if list_at kvs field = [] then [] else [spec_clause field (list_at kvs field)])"
proof (cases "map_of kvs field")
  case None
  then show ?thesis by (simp add: field_clauses_def bind_exn_def list_at_def)
next
  case (Some v)
  with assms obtain xs where v: "v = JList xs" by (cases v) auto
  show ?thesis
  proof (cases "xs = []")
    case True
    with Some v show ?thesis by (simp add: field_clauses_def bind_exn_def list_at_def)
  next
    case False
    with Some v show ?thesis
      by (simp add: field_clauses_def bind_exn_def list_at_def clause_for_list)
  qed
qed

lemma build_filters_dict:
  assumes "query_analysis ''required_filters'' = Some (JObj kvs)"
      and "\<forall>k v. map_of kvs k = Some v \<longrightarrow> is_list v"
  shows "build_filters query_analysis =
         Inr (spec_filter (list_at kvs ''document_type'') (list_at kvs ''department''))"
proof (cases "kvs = []")
  case True
  with assms(1) show ?thesis
    by (simp add: build_filters_def list_at_def spec_filter_def)
next
  case False
  have c1: "field_clauses (JObj kvs) ''document_type'' =
         Inr (if list_at kvs ''document_type'' = [] then []
              else [spec_clause ''document_type'' (list_at kvs ''document_type'')])"
    using assms(2) by (intro field_clauses_lists) blast
  have c2: "field_clauses (JObj kvs) ''department'' =
         Inr (if list_at kvs ''department'' = [] then []
              else [spec_clause ''department'' (list_at kvs ''department'')])"
    using assms(2) by (intro field_clauses_lists) blast
  show ?thesis
    using False assms(1)
    by (simp add: build_filters_def c1 c2 bind_exn_def spec_filter_def)
qed

lemma build_filters_absent:
  "query_analysis ''required_filters'' = None \<Longrightarrow> build_filters query_analysis = Inr None"
  by (simp add: build_filters_def)

text \<open>
  Claim C8. For every query analysis whose \<open>required_filters\<close> values are lists, the
  built filter is the one the specification words: a clause for \<open>document_type\<close> and a
  clause for \<open>department\<close> only, each present when its list is non-empty, an equality on
  the single value of a one-element list and the \<open>$in\<close> form for a longer one, the two
  joined under \<open>$and\<close>, and no filter (\<open>None\<close>) when neither list is present or
  \<open>required_filters\<close> is absent.
\<close>

theorem build_filters_lists:
  "(query_analysis ''required_filters'' = None \<longrightarrow> build_filters query_analysis = Inr None) \<and>
   (\<forall>kvs. query_analysis ''required_filters'' = Some (JObj kvs) \<longrightarrow>
      (\<forall>k v. map_of kvs k = Some v \<longrightarrow> is_list v) \<longrightarrow>
      build_filters query_analysis =
        Inr (spec_filter (list_at kvs ''document_type'') (list_at kvs ''department'')))"
  using build_filters_absent[of query_analysis] build_filters_dict[of query_analysis] by blast

text \<open>
  The theorem at one department (an equality clause; the topics filter is not applied) and
  at a document type with two departments (an equality and a set membership under the
  logical and).
\<close>

theorem build_filters_lists_witness:
  "build_filters analysis_one_department = Inr (Some (JObj [(''department'', JStr ''HR'')])) \<and>
   build_filters analysis_two_departments =
     Inr (Some (JObj [(''$and'',
       JList [JObj [(''document_type'', JStr ''HR Policy'')],
              JObj [(''department'', JObj [(''$in'', JList [JStr ''HR'', JStr ''IT''])])]])]))"
proof -
  have a1: "analysis_one_department ''required_filters'' =
      Some (JObj [(''department'', JList [JStr ''HR'']), (''topics'', JList [JStr ''remote_work''])])"
    by (simp add: analysis_one_department_def)
  have l1: "\<forall>k v. map_of [(''department'', JList [JStr ''HR'']), (''topics'', JList [JStr ''remote_work''])] k = Some v
      \<longrightarrow> is_list v"
    by (auto split: if_splits)
  have a2: "analysis_two_departments ''required_filters'' =
      Some (JObj [(''document_type'', JList [JStr ''HR Policy'']),
                  (''department'', JList [JStr ''HR'', JStr ''IT''])])"
    by (simp add: analysis_two_departments_def)
  have l2: "\<forall>k v. map_of [(''document_type'', JList [JStr ''HR Policy'']),
                  (''department'', JList [JStr ''HR'', JStr ''IT''])] k = Some v
      \<longrightarrow> is_list v"
    by (auto split: if_splits)
  from build_filters_lists[of analysis_one_department, THEN conjunct2, rule_format, OF a1 l1[rule_format]]
       build_filters_lists[of analysis_two_departments, THEN conjunct2, rule_format, OF a2 l2[rule_format]]
  show ?thesis
    by (simp add: list_at_def spec_filter_def spec_clause_def)
qed

section \<open>Retriever: similarity scores\<close>

lemma py_min_Min: "ds \<noteq> [] \<Longrightarrow> py_min ds = Min (set ds)"
  by (cases ds) (simp_all add: Min.set_eq_fold del: set_simps)

lemma py_max_Max: "ds \<noteq> [] \<Longrightarrow> py_max ds = Max (set ds)"
  by (cases ds) (simp_all add: Max.set_eq_fold del: set_simps)

lemma collect_map:
  assumes "\<And>i. i \<in> set js \<Longrightarrow> f i = Inr (g i)"
  shows "collect f js = Inr (map g js)"
  using assms by (induction js) (simp_all add: bind_exn_def)

lemma normalize_score_bounds: "0 \<le> normalize_score m r d \<and> normalize_score m r d \<le> 1"
  by (simp add: normalize_score_def Let_def)

lemma normalize_score_at_min: "0 < r \<Longrightarrow> normalize_score m r m = 1"
  by (simp add: normalize_score_def)

lemma normalize_score_at_max: "m < M \<Longrightarrow> normalize_score m (M - m) M = 0"
  by (simp add: normalize_score_def)

lemma normalize_score_inside:
  assumes "m < M" "m \<le> d" "d \<le> M"
  shows "normalize_score m (M - m) d = 1 - (d - m) / (M - m)"
proof -
  have "0 \<le> (d - m) / (M - m)" using assms by simp
  moreover have "(d - m) / (M - m) \<le> 1" using assms by simp
  ultimately show ?thesis using assms by (simp add: normalize_score_def)
qed

lemma format_results_closed:
  assumes "distances r \<noteq> []" "length (ids r) = length (distances r)"
    "length (documents r) = length (distances r)" "length (metadatas r) = length (distances r)"
  shows "format_results r = Inr (map (expected_chunk r) [0..<length (distances r)])"
proof -
  define m where "m = Min (set (distances r))"
  define rg where "rg = (if Max (set (distances r)) > Min (set (distances r))
           then Max (set (distances r)) - Min (set (distances r)) else 1)"
  have ne: "ids r \<noteq> []" using assms by auto
  have ch: "format_chunk r m rg i = Inr (expected_chunk r i)" if "i \<in> set [0..<length (ids r)]" for i
    using that assms
    by (simp add: format_chunk_def py_index_def bind_exn_def expected_chunk_def m_def rg_def)
  have "collect (format_chunk r m rg) [0..<length (ids r)] = Inr (map (expected_chunk r) [0..<length (ids r)])"
    by (rule collect_map) (rule ch)
  moreover have "format_results r = collect (format_chunk r m rg) [0..<length (ids r)]"
    using assms(1) ne unfolding format_results_def Let_def m_def rg_def
    by (simp only: if_False if_True py_min_Min[OF assms(1)] py_max_Max[OF assms(1)] not_False_eq_True)
  ultimately show ?thesis using assms(2) by simp
qed

text \<open>
  Claim C7. For every non-empty list of distances of a search result (its four lists of
  one length), result formatting returns one entry per distance whose score lies in
  \<open>[0, 1]\<close>: the min-max normalisation \<open>1 - (d - min) / (max - min)\<close> when the distances
  differ, so that an entry at the minimum distance scores 1 and one at the maximum scores
  0, and score 1 for every entry when all distances are equal.
\<close>

theorem format_results_scores:
  assumes "distances r \<noteq> []" "length (ids r) = length (distances r)"
    "length (documents r) = length (distances r)" "length (metadatas r) = length (distances r)"
  shows "\<exists>cs. format_results r = Inr cs \<and> length cs = length (distances r) \<and>
     (\<forall>i<length cs.
        distance (cs ! i) = distances r ! i \<and>
        0 \<le> score (cs ! i) \<and> score (cs ! i) \<le> 1 \<and>
        (distances r ! i = Min (set (distances r)) \<longrightarrow> score (cs ! i) = 1) \<and>
        (Min (set (distances r)) < Max (set (distances r)) \<longrightarrow>
           score (cs ! i) =
             1 - (distances r ! i - Min (set (distances r))) /
                 (Max (set (distances r)) - Min (set (distances r)))) \<and>
        (Min (set (distances r)) < Max (set (distances r)) \<longrightarrow>
           distances r ! i = Max (set (distances r)) \<longrightarrow> score (cs ! i) = 0) \<and>
        ((\<forall>x\<in>set (distances r). \<forall>y\<in>set (distances r). x = y) \<longrightarrow> score (cs ! i) = 1))"
proof -
  let ?ds = "distances r"
  let ?m = "Min (set (distances r))"
  let ?M = "Max (set (distances r))"
  define cs where "cs = map (expected_chunk r) [0..<length ?ds]"
  have run: "format_results r = Inr cs"
    unfolding cs_def by (rule format_results_closed[OF assms])
  have len: "length cs = length ?ds" by (simp add: cs_def)
  have fin: "finite (set ?ds)" "set ?ds \<noteq> {}" using assms(1) by simp_all
  have props: "\<forall>i<length cs. distance (cs ! i) = ?ds ! i \<and>
        0 \<le> score (cs ! i) \<and> score (cs ! i) \<le> 1 \<and>
        (?ds ! i = ?m \<longrightarrow> score (cs ! i) = 1) \<and>
        (?m < ?M \<longrightarrow> score (cs ! i) = 1 - (?ds ! i - ?m) / (?M - ?m)) \<and>
        (?m < ?M \<longrightarrow> ?ds ! i = ?M \<longrightarrow> score (cs ! i) = 0) \<and>
        ((\<forall>x\<in>set ?ds. \<forall>y\<in>set ?ds. x = y) \<longrightarrow> score (cs ! i) = 1)"
  proof (intro allI impI)
    fix i assume i: "i < length cs"
    have il: "i < length ?ds" using i len by simp
    then have mem: "?ds ! i \<in> set ?ds" by simp
    have lo: "?m \<le> ?ds ! i" using fin mem by simp
    have hi: "?ds ! i \<le> ?M" using fin mem by simp
    have sc: "score (cs ! i) = normalize_score ?m (if ?M > ?m then ?M - ?m else 1) (?ds ! i)"
      using il by (simp add: cs_def expected_chunk_def)
    have d: "distance (cs ! i) = ?ds ! i"
      using il by (simp add: cs_def expected_chunk_def)
    have b1: "0 \<le> score (cs ! i)" and b2: "score (cs ! i) \<le> 1"
      unfolding sc using normalize_score_bounds by blast+
    have atmin: "?ds ! i = ?m \<longrightarrow> score (cs ! i) = 1"
      unfolding sc by (auto simp: normalize_score_at_min)
    have inside: "?m < ?M \<longrightarrow> score (cs ! i) = 1 - (?ds ! i - ?m) / (?M - ?m)"
      unfolding sc using lo hi by (auto simp: normalize_score_inside)
    have atmax: "?m < ?M \<longrightarrow> ?ds ! i = ?M \<longrightarrow> score (cs ! i) = 0"
      unfolding sc by (auto simp: normalize_score_at_max)
    have alleq: "(\<forall>x\<in>set ?ds. \<forall>y\<in>set ?ds. x = y) \<longrightarrow> score (cs ! i) = 1"
    proof
      assume e: "\<forall>x\<in>set ?ds. \<forall>y\<in>set ?ds. x = y"
      have "?m \<in> set ?ds" using fin by (rule Min_in)
      with e mem have "?ds ! i = ?m" by blast
      with atmin show "score (cs ! i) = 1" by blast
    qed
    show "distance (cs ! i) = ?ds ! i \<and>
        0 \<le> score (cs ! i) \<and> score (cs ! i) \<le> 1 \<and>
        (?ds ! i = ?m \<longrightarrow> score (cs ! i) = 1) \<and>
        (?m < ?M \<longrightarrow> score (cs ! i) = 1 - (?ds ! i - ?m) / (?M - ?m)) \<and>
        (?m < ?M \<longrightarrow> ?ds ! i = ?M \<longrightarrow> score (cs ! i) = 0) \<and>
        ((\<forall>x\<in>set ?ds. \<forall>y\<in>set ?ds. x = y) \<longrightarrow> score (cs ! i) = 1)"
      by (intro conjI; fact d b1 b2 atmin inside atmax alleq)
  qed
  show ?thesis
    by (rule exI[of _ cs]) (intro conjI; fact run len props)
qed

text \<open>The theorem at three hits with distances 0.2, 0.5 and 0.6: scores 1, 0.25 and 0.\<close>

theorem format_results_scores_witness:
  "\<exists>cs. format_results three_hits = Inr cs \<and> length cs = 3 \<and>
        score (cs ! 0) = 1 \<and> score (cs ! 1) = 1 / 4 \<and> score (cs ! 2) = 0"
proof -
  have h: "distances three_hits \<noteq> []" "length (ids three_hits) = length (distances three_hits)"
    "length (documents three_hits) = length (distances three_hits)"
    "length (metadatas three_hits) = length (distances three_hits)"
    by (simp_all add: three_hits_def)
  have ds: "distances three_hits = [1 / 5, 1 / 2, 3 / 5]" by (simp add: three_hits_def)
  have mn: "Min (set (distances three_hits)) = 1 / 5" by (simp add: ds)
  have mx: "Max (set (distances three_hits)) = 3 / 5" by (simp add: ds)
  from format_results_scores[OF h] obtain cs where
    run: "format_results three_hits = Inr cs" and len: "length cs = length (distances three_hits)"
    and p: "\<forall>i<length cs.
        distance (cs ! i) = distances three_hits ! i \<and>
        0 \<le> score (cs ! i) \<and> score (cs ! i) \<le> 1 \<and>
        (distances three_hits ! i = Min (set (distances three_hits)) \<longrightarrow> score (cs ! i) = 1) \<and>
        (Min (set (distances three_hits)) < Max (set (distances three_hits)) \<longrightarrow>
           score (cs ! i) =
             1 - (distances three_hits ! i - Min (set (distances three_hits))) /
                 (Max (set (distances three_hits)) - Min (set (distances three_hits)))) \<and>
        (Min (set (distances three_hits)) < Max (set (distances three_hits)) \<longrightarrow>
           distances three_hits ! i = Max (set (distances three_hits)) \<longrightarrow> score (cs ! i) = 0) \<and>
        ((\<forall>x\<in>set (distances three_hits). \<forall>y\<in>set (distances three_hits). x = y) \<longrightarrow> score (cs ! i) = 1)"
    by (elim exE conjE)
  have l3: "length cs = 3" using len by (simp add: ds)
  have i0: "0 < length cs" and i1: "1 < length cs" and i2: "2 < length cs" using l3 by simp_all
  from p[rule_format, OF i0] have s0: "score (cs ! 0) = 1" unfolding mn mx by (simp add: ds)
  from p[rule_format, OF i1] have s1: "score (cs ! 1) = 1 / 4" unfolding mn mx by (simp add: ds)
  from p[rule_format, OF i2] have s2: "score (cs ! 2) = 0" unfolding mn mx by (simp add: ds)
  show ?thesis
    by (rule exI[of _ cs]) (intro conjI; fact run l3 s0 s1 s2)
qed

end
